theory Spec2Isabelle
  imports Complex_Main
begin

section \<open>Warehouse pick reservations: the slot and booking engine\<close>

text \<open>
  A shallow embedding of the engine functions of \<^verbatim>\<open>src/pick-reservation.jsx\<close>:
  \<^verbatim>\<open>generateTimeSlots\<close>, \<^verbatim>\<open>timeToMinutes\<close>, \<^verbatim>\<open>getSlotOccupancy\<close>, \<^verbatim>\<open>canBook\<close>,
  \<^verbatim>\<open>getDateAvailability\<close>, the handlers of \<^verbatim>\<open>App\<close> and its components that lead to a
  booking, and the reservation-set transformation of \<^verbatim>\<open>handleCancel\<close>.

  JavaScript numbers hold integers here (settings come from \<^verbatim>\<open>parseInt\<close> or from the
  defaults, products from the constant table), so they are modelled as \<^typ>\<open>int\<close>. The two
  places where a number stops being an integer are written out: a string that does not
  read as a number gives \<^verbatim>\<open>NaN\<close> (\<^term>\<open>None\<close> below, and every comparison with it is
  false), and the division of \<^verbatim>\<open>getDateAvailability\<close> has its own result type.
\<close>

subsection \<open>Data\<close>

record product =
  id_p :: string
  name_p :: string
  requiredSlots_p :: int
  durationMin_p :: int

record settings =
  maxCapacity :: int
  openHour :: int
  openMin :: int
  closeHour :: int
  closeMin :: int
  slotIntervalMin :: int
  calendarMonths :: int
  holidays :: "string list"

text \<open>
  A reservation as \<^verbatim>\<open>handleConfirm\<close> builds it: the fields of the booking form,
  an identifier, a status and a creation time.
\<close>

record reservation =
  id_r :: string
  name :: string
  phone :: string
  note_r :: string
  startTime :: string
  endTime :: string
  date :: string
  productId :: string
  productName :: string
  requiredSlots :: int
  durationMin :: int
  status :: string
  createdAt :: string

record slot =
  hour :: int
  min_s :: int
  label :: string

text \<open>
  The product table. The display names are Japanese text in the source and take part in
  no computation; they are transliterated here.
\<close>

definition PRODUCTS :: "product list" where
  "PRODUCTS =
    [\<lparr>id_p = ''quarter'', name_p = ''kuoota'', requiredSlots_p = 1, durationMin_p = 60\<rparr>,
     \<lparr>id_p = ''half'', name_p = ''haafu'', requiredSlots_p = 3, durationMin_p = 120\<rparr>,
     \<lparr>id_p = ''full'', name_p = ''furu'', requiredSlots_p = 2, durationMin_p = 180\<rparr>,
     \<lparr>id_p = ''pick-guide-half'', name_p = ''pikku shidou (haafu)'',
      requiredSlots_p = 3, durationMin_p = 180\<rparr>,
     \<lparr>id_p = ''pick-guide-full'', name_p = ''pikku shidou (furu)'',
      requiredSlots_p = 2, durationMin_p = 240\<rparr>]"

definition DEFAULT_SETTINGS :: settings where
  "DEFAULT_SETTINGS =
    \<lparr>maxCapacity = 6, openHour = 9, openMin = 0, closeHour = 19, closeMin = 0,
     slotIntervalMin = 30, calendarMonths = 3, holidays = []\<rparr>"

subsection \<open>Numbers and time labels\<close>

text \<open>
  \<^verbatim>\<open>Math.floor(m / 60)\<close> is \<^term>\<open>m div 60\<close> on integers. JavaScript's \<^verbatim>\<open>%\<close> is the
  remainder of the division that truncates towards zero: it has the sign of the dividend.
\<close>

definition jsRem :: "int \<Rightarrow> int \<Rightarrow> int" where
  "jsRem a b = sgn a * (\<bar>a\<bar> mod \<bar>b\<bar>)"

definition digitChar :: "nat \<Rightarrow> char" where
  "digitChar d = ''0123456789'' ! d"

fun natToString :: "nat \<Rightarrow> string" where
  "natToString n =
     (if n < 10 then [digitChar n] else natToString (n div 10) @ [digitChar (n mod 10)])"

declare natToString.simps [simp del]

text \<open>\<^verbatim>\<open>String(n)\<close> for an integer.\<close>

definition jsString :: "int \<Rightarrow> string" where
  "jsString n = (if n < 0 then CHR ''-'' # natToString (nat (- n)) else natToString (nat n))"

text \<open>\<^verbatim>\<open>s.padStart(2, "0")\<close>.\<close>

definition padStart2 :: "string \<Rightarrow> string" where
  "padStart2 s = replicate (2 - length s) CHR ''0'' @ s"

definition pad2 :: "int \<Rightarrow> string" where
  "pad2 n = padStart2 (jsString n)"

definition fmtTime :: "int \<Rightarrow> int \<Rightarrow> string" where
  "fmtTime h m = pad2 h @ '':'' @ pad2 m"

text \<open>\<^verbatim>\<open>t.split(":")\<close>: the pieces between the colons, at least one piece.\<close>

fun splitColon :: "string \<Rightarrow> string list" where
  "splitColon [] = [[]]"
| "splitColon (c # cs) =
     (if c = CHR '':'' then [] # splitColon cs
      else (case splitColon cs of [] \<Rightarrow> [[c]] | x # xs \<Rightarrow> (c # x) # xs))"

definition digitVal :: "char \<Rightarrow> nat option" where
  "digitVal = map_of
     [(CHR ''0'', 0), (CHR ''1'', 1), (CHR ''2'', 2), (CHR ''3'', 3), (CHR ''4'', 4),
      (CHR ''5'', 5), (CHR ''6'', 6), (CHR ''7'', 7), (CHR ''8'', 8), (CHR ''9'', 9)]"

fun digitsToNat :: "nat \<Rightarrow> string \<Rightarrow> nat option" where
  "digitsToNat acc [] = Some acc"
| "digitsToNat acc (c # cs) =
     (case digitVal c of None \<Rightarrow> None | Some d \<Rightarrow> digitsToNat (acc * 10 + d) cs)"

text \<open>
  \<^verbatim>\<open>Number(s)\<close> on the strings this program builds: decimal digits, with a minus sign
  in front for a negative number; the empty string is 0. \<^term>\<open>None\<close> is \<^verbatim>\<open>NaN\<close>.
  The other spellings JavaScript reads as numbers (surrounding blanks, a plus sign, a
  fraction, an exponent, a radix prefix, \<^verbatim>\<open>Infinity\<close>) are never produced by
  \<^verbatim>\<open>fmtTime\<close> and are read as \<^verbatim>\<open>NaN\<close> here.
\<close>

definition jsNumber :: "string \<Rightarrow> int option" where
  "jsNumber s =
     (case s of
        [] \<Rightarrow> Some 0
      | c # cs \<Rightarrow>
          (if c = CHR ''-''
           then (if cs = [] then None else map_option (\<lambda>n. - int n) (digitsToNat 0 cs))
           else map_option int (digitsToNat 0 s)))"

text \<open>
  \<^verbatim>\<open>const [h, m] = t.split(":").map(Number); return h * 60 + m\<close>. A missing second
  piece is \<^verbatim>\<open>undefined\<close> and the sum is \<^verbatim>\<open>NaN\<close>; pieces after the second are ignored.
\<close>

definition timeToMinutes :: "string \<Rightarrow> int option" where
  "timeToMinutes t =
     (case map jsNumber (splitColon t) of
        Some h # Some m # _ \<Rightarrow> Some (h * 60 + m)
      | _ \<Rightarrow> None)"

subsection \<open>Slot grid\<close>

text \<open>
  The \<^verbatim>\<open>while\<close> loop of \<^verbatim>\<open>generateTimeSlots\<close>, with the loop variables \<^verbatim>\<open>h\<close>, \<^verbatim>\<open>m\<close>
  and \<^verbatim>\<open>slots\<close> as arguments. Nothing bounds the number of rounds when the interval is
  not positive, so the loop lives in the option monad: \<^term>\<open>None\<close> is a run that does
  not return.
\<close>

partial_function (option) generateTimeSlots_loop ::
  "settings \<Rightarrow> int \<Rightarrow> int \<Rightarrow> int \<Rightarrow> slot list \<Rightarrow> slot list option" where
  "generateTimeSlots_loop s endTotal h m slots =
     (if h * 60 + m < endTotal
      then (let slots' = slots @ [\<lparr>hour = h, min_s = m, label = fmtTime h m\<rparr>];
                m' = m + slotIntervalMin s
            in if m' \<ge> 60
               then generateTimeSlots_loop s endTotal (h + m' div 60) (jsRem m' 60) slots'
               else generateTimeSlots_loop s endTotal h m' slots')
      else Some slots)"

declare generateTimeSlots_loop.simps [code]

definition generateTimeSlots :: "settings \<Rightarrow> slot list option" where
  "generateTimeSlots s =
     generateTimeSlots_loop s (closeHour s * 60 + closeMin s) (openHour s) (openMin s) []"

subsection \<open>Occupancy\<close>

text \<open>Comparisons of numbers that may be \<^verbatim>\<open>NaN\<close>: false as soon as one side is.\<close>

definition jsLt :: "int option \<Rightarrow> int option \<Rightarrow> bool" where
  "jsLt a b = (case a of None \<Rightarrow> False | Some x \<Rightarrow> (case b of None \<Rightarrow> False | Some y \<Rightarrow> x < y))"

definition jsGe :: "int option \<Rightarrow> int option \<Rightarrow> bool" where
  "jsGe a b = (case a of None \<Rightarrow> False | Some x \<Rightarrow> (case b of None \<Rightarrow> False | Some y \<Rightarrow> x \<ge> y))"

definition getSlotOccupancy :: "string \<Rightarrow> string \<Rightarrow> reservation list \<Rightarrow> int" where
  "getSlotOccupancy dateStr slotLabel reservations =
     foldl (\<lambda>sum r.
              let startIdx = timeToMinutes (startTime r);
                  endIdx = timeToMinutes (endTime r);
                  slotMin = timeToMinutes slotLabel
              in if jsGe slotMin startIdx \<and> jsLt slotMin endIdx
                 then sum + requiredSlots r
                 else sum)
           0
           (filter (\<lambda>r. date r = dateStr \<and> status r = ''confirmed'') reservations)"

subsection \<open>Booking validation\<close>

text \<open>
  The \<^verbatim>\<open>for\<close> loop of \<^verbatim>\<open>canBook\<close>, with the loop variable \<^verbatim>\<open>m\<close> as last argument.
  As for the slot grid, a non-positive interval can keep it running for ever.
\<close>

partial_function (option) canBook_loop ::
  "string \<Rightarrow> product \<Rightarrow> reservation list \<Rightarrow> settings \<Rightarrow> int \<Rightarrow> int \<Rightarrow> bool option" where
  "canBook_loop dateStr prodt reservations s endMin m =
     (if m < endMin
      then (let slotLabel = fmtTime (m div 60) (jsRem m 60);
                occ = getSlotOccupancy dateStr slotLabel reservations
            in if occ + requiredSlots_p prodt > maxCapacity s then Some False
               else canBook_loop dateStr prodt reservations s endMin (m + slotIntervalMin s))
      else Some True)"

declare canBook_loop.simps [code]

text \<open>
  When the start label is not a time, \<^verbatim>\<open>startMin\<close> and \<^verbatim>\<open>endMin\<close> are \<^verbatim>\<open>NaN\<close>: the
  close-time test and the loop test are both false and the function returns \<^verbatim>\<open>true\<close>.
\<close>

definition canBook ::
  "string \<Rightarrow> string \<Rightarrow> product \<Rightarrow> reservation list \<Rightarrow> settings \<Rightarrow> bool option" where
  "canBook dateStr startLabel prodt reservations s =
     (case timeToMinutes startLabel of
        None \<Rightarrow> Some True
      | Some startMin \<Rightarrow>
          (let endMin = startMin + durationMin_p prodt;
               closeMin' = closeHour s * 60 + closeMin s
           in if endMin > closeMin' then Some False
              else canBook_loop dateStr prodt reservations s endMin startMin))"

subsection \<open>Availability of a day\<close>

text \<open>
  The result of the final division \<^verbatim>\<open>totalAvail / maxPossible\<close>. The dividend is a sum
  of values \<^verbatim>\<open>Math.max(0, ...)\<close>, so it is never negative; a zero divisor gives
  \<^verbatim>\<open>NaN\<close> for a zero dividend and \<^verbatim>\<open>Infinity\<close> otherwise. A non-zero divisor gives the
  quotient, taken here as the exact real number.
\<close>

datatype jsQuotient = Quotient real | NaN | Infinity

definition jsDivide :: "int \<Rightarrow> int \<Rightarrow> jsQuotient" where
  "jsDivide a b =
     (if b = 0 then (if a = 0 then NaN else Infinity)
      else Quotient (real_of_int a / real_of_int b))"

definition getDateAvailability ::
  "string \<Rightarrow> reservation list \<Rightarrow> settings \<Rightarrow> jsQuotient option" where
  "getDateAvailability dateStr reservations s =
     (case generateTimeSlots s of
        None \<Rightarrow> None
      | Some slots \<Rightarrow>
          (let totalAvail =
                 foldl (\<lambda>total sl.
                          let occ = getSlotOccupancy dateStr (label sl) reservations
                          in total + max 0 (maxCapacity s - occ))
                       0 slots;
               maxPossible = int (length slots) * maxCapacity s
           in Some (jsDivide totalAvail maxPossible)))"

subsection \<open>The booking form\<close>

text \<open>
  The object \<^verbatim>\<open>BookingForm\<close> hands to \<^verbatim>\<open>onConfirm\<close>: the end label is computed from
  the start label and the product's duration, the product is copied by value. The name,
  phone and note arrive trimmed. The identifier, status and creation time are not part of
  this object (\<^verbatim>\<open>handleConfirm\<close> sets them) and are empty here. With a start label that
  is not a time the end is \<^verbatim>\<open>NaN\<close> and the end label reads \<^verbatim>\<open>NaN:NaN\<close>.
\<close>

definition bookingInfo ::
  "string \<Rightarrow> string \<Rightarrow> product \<Rightarrow> string \<Rightarrow> string \<Rightarrow> string \<Rightarrow> reservation" where
  "bookingInfo dateStr startLabel prodt nm ph nt =
     \<lparr>id_r = [], name = nm, phone = ph, note_r = nt,
      startTime = startLabel,
      endTime =
        (case timeToMinutes startLabel of
           None \<Rightarrow> ''NaN:NaN''
         | Some startMin \<Rightarrow>
             (let endMin = startMin + durationMin_p prodt
              in fmtTime (endMin div 60) (jsRem endMin 60))),
      date = dateStr,
      productId = id_p prodt, productName = name_p prodt,
      requiredSlots = requiredSlots_p prodt, durationMin = durationMin_p prodt,
      status = [], createdAt = []\<rparr>"

subsection \<open>Changing the reservation set\<close>

text \<open>
  \<^verbatim>\<open>handleConfirm\<close> appends the new reservation; the identifier and the creation time come
  from the environment and are parameters.
\<close>

definition handleConfirm ::
  "reservation \<Rightarrow> string \<Rightarrow> string \<Rightarrow> reservation list \<Rightarrow> reservation list" where
  "handleConfirm info newId now reservations =
     reservations @ [info\<lparr>id_r := newId, status := ''confirmed'', createdAt := now\<rparr>]"

definition handleCancel :: "string \<Rightarrow> reservation list \<Rightarrow> reservation list" where
  "handleCancel ident reservations =
     map (\<lambda>r. if id_r r = ident then r\<lparr>status := ''cancelled''\<rparr> else r) reservations"

text \<open>
  The administration panel's delete button calls its \<^verbatim>\<open>onDeleteReservation\<close> property,
  and \<^verbatim>\<open>App\<close> passes \<^verbatim>\<open>handleCancel\<close> for it.
\<close>

definition onDeleteReservation :: "string \<Rightarrow> reservation list \<Rightarrow> reservation list" where
  "onDeleteReservation = handleCancel"

subsection \<open>The application's state and its handlers\<close>

text \<open>
  The state variables of \<^verbatim>\<open>App\<close> that decide what can be booked: the reservations, the
  settings, the tab shown, and the product, date and time selected so far. Each handler
  below is a function on this state. A component is on the screen only under the
  condition \<^verbatim>\<open>App\<close> renders it with; a click on a component that is not on the screen,
  or on a disabled button, leaves the state as it is.
\<close>

record app =
  reservations_a :: "reservation list"
  settings_a :: settings
  tab :: string
  selectedDate :: "string option"
  selectedProduct :: "product option"
  selectedTime :: "string option"

text \<open>The state after loading, when nothing is stored.\<close>

definition initialApp :: app where
  "initialApp =
     \<lparr>reservations_a = [], settings_a = DEFAULT_SETTINGS, tab = ''reserve'',
      selectedDate = None, selectedProduct = None, selectedTime = None\<rparr>"

text \<open>The three tab buttons; the first also clears the selected time.\<close>

definition reserveTabClick :: "app \<Rightarrow> app" where
  "reserveTabClick st = st\<lparr>tab := ''reserve'', selectedTime := None\<rparr>"

definition listTabClick :: "app \<Rightarrow> app" where
  "listTabClick st = st\<lparr>tab := ''list''\<rparr>"

definition adminTabClick :: "app \<Rightarrow> app" where
  "adminTabClick st = st\<lparr>tab := ''admin''\<rparr>"

text \<open>
  The product picker, the calendar and the time slot picker are shown on the reserve tab
  while no time is selected; the booking form is shown there once a time is selected.
\<close>

definition pickersShown :: "app \<Rightarrow> bool" where
  "pickersShown st = (tab st = ''reserve'' \<and> selectedTime st = None)"

definition productClick :: "product \<Rightarrow> app \<Rightarrow> app" where
  "productClick p st =
     (if pickersShown st then st\<lparr>selectedProduct := Some p, selectedTime := None\<rparr> else st)"

text \<open>
  A day button of the calendar:
  \<^verbatim>\<open>onClick={() => !disabled && onSelect(dateStr)}\<close> with
  \<^verbatim>\<open>disabled = past || holiday\<close>, where \<^verbatim>\<open>onSelect\<close> sets the selected date and clears
  the selected time. Whether the date is past depends on the clock; it is a parameter.
\<close>

definition dayButtonClick :: "bool \<Rightarrow> string \<Rightarrow> app \<Rightarrow> app" where
  "dayButtonClick past dateStr st =
     (if pickersShown st
      then (let holiday = (dateStr \<in> set (holidays (settings_a st)));
                disabled = (past \<or> holiday)
            in if \<not> disabled then st\<lparr>selectedDate := Some dateStr, selectedTime := None\<rparr>
               else st)
      else st)"

text \<open>
  A button of the time slot picker. The picker shows buttons only when a date and a
  product are selected, one for each generated slot that leaves room for the product's
  duration before closing time; a button is enabled when \<^verbatim>\<open>canBook\<close> says so, and then
  the click selects the slot's label. The result is \<^term>\<open>None\<close> when the picker's
  rendering does not return.
\<close>

definition timeSlotClick :: "string \<Rightarrow> app \<Rightarrow> app option" where
  "timeSlotClick slotLabel st =
     (if \<not> pickersShown st then Some st
      else (case selectedDate st of
              None \<Rightarrow> Some st
            | Some dateStr \<Rightarrow>
                (case selectedProduct st of
                   None \<Rightarrow> Some st
                 | Some p \<Rightarrow>
                     (case generateTimeSlots (settings_a st) of
                        None \<Rightarrow> None
                      | Some allSlots \<Rightarrow>
                          (let closeMin' = closeHour (settings_a st) * 60 + closeMin (settings_a st);
                               validSlots =
                                 filter (\<lambda>sl. hour sl * 60 + min_s sl + durationMin_p p \<le> closeMin')
                                   allSlots
                           in if slotLabel \<in> set (map label validSlots)
                              then (case canBook dateStr slotLabel p (reservations_a st)
                                           (settings_a st) of
                                      None \<Rightarrow> None
                                    | Some available \<Rightarrow>
                                        Some (if available
                                              then st\<lparr>selectedTime := Some slotLabel\<rparr>
                                              else st))
                              else Some st)))))"

text \<open>
  The confirm button of the booking form, enabled when the trimmed name and phone are not
  empty: it hands the form's object to \<^verbatim>\<open>handleConfirm\<close>, which stores the new
  reservation, clears the three selections and shows the list tab.
\<close>

definition confirmClick ::
  "string \<Rightarrow> string \<Rightarrow> string \<Rightarrow> string \<Rightarrow> string \<Rightarrow> app \<Rightarrow> app" where
  "confirmClick nm ph nt newId now st =
     (if tab st \<noteq> ''reserve'' then st
      else (case selectedTime st of
              None \<Rightarrow> st
            | Some startLabel \<Rightarrow>
                (case selectedDate st of
                   None \<Rightarrow> st
                 | Some dateStr \<Rightarrow>
                     (case selectedProduct st of
                        None \<Rightarrow> st
                      | Some p \<Rightarrow>
                          (if nm \<noteq> [] \<and> ph \<noteq> []
                           then st\<lparr>reservations_a :=
                                     handleConfirm (bookingInfo dateStr startLabel p nm ph nt)
                                       newId now (reservations_a st),
                                   selectedTime := None, selectedDate := None,
                                   selectedProduct := None, tab := ''list''\<rparr>
                           else st)))))"

text \<open>
  The save button of the settings editor, on the admin tab: \<^verbatim>\<open>handleSave\<close> hands the
  edited settings \<^verbatim>\<open>local\<close> to \<^verbatim>\<open>persistSettings\<close>, which replaces the settings and
  touches no other state variable.
\<close>

definition handleSave :: "settings \<Rightarrow> app \<Rightarrow> app" where
  "handleSave local st = (if tab st = ''admin'' then st\<lparr>settings_a := local\<rparr> else st)"

subsection \<open>Sample data\<close>

text \<open>
  The specification's scenario, used to run the theorems below on concrete input: on one
  day, with the default settings, the ``half'' product (3 units, 120 minutes) is booked at
  10:00 and again at 10:30.
\<close>

definition sampleReservations :: "reservation list" where
  "sampleReservations =
     handleConfirm
       (bookingInfo ''2026-01-05'' ''10:30'' (PRODUCTS ! 1) ''Tanaka'' ''0600000002'' [])
       ''r2'' ''2026-01-02T09:00:00.000Z''
       (handleConfirm
          (bookingInfo ''2026-01-05'' ''10:00'' (PRODUCTS ! 1) ''Sato'' ''0600000001'' [])
          ''r1'' ''2026-01-01T09:00:00.000Z'' [])"

text \<open>
  A session that starts with nothing stored: the ``half'' product is chosen, the day
  2026-01-05 (not past, not a holiday) is clicked in the calendar, the operator makes
  that day a holiday in the settings editor and saves, and back on the reserve tab the
  10:00 slot is clicked and the booking is confirmed.
\<close>

definition holidayAfterSelection :: "app option" where
  "holidayAfterSelection =
     map_option (confirmClick ''Sato'' ''0600000001'' [] ''r1'' ''2026-01-01T09:00:00.000Z'')
       (timeSlotClick ''10:00''
          (reserveTabClick
             (handleSave (DEFAULT_SETTINGS\<lparr>holidays := [''2026-01-05'']\<rparr>)
                (adminTabClick
                   (dayButtonClick False ''2026-01-05''
                      (productClick (PRODUCTS ! 1) initialApp))))))"

subsection \<open>The specification's notions\<close>

text \<open>
  The minute-of-day offset of a slot, as \<^verbatim>\<open>TimeSlotPicker\<close> computes it
  (\<^verbatim>\<open>s.hour * 60 + s.min\<close>).
\<close>

definition slotOffset :: "slot \<Rightarrow> int" where
  "slotOffset sl = hour sl * 60 + min_s sl"

text \<open>
  The specification's occupancy at an instant, in its own words: the sum of the required
  units of the reservations that are confirmed, are on the date, and whose half-open
  interval from start to end holds the instant. These definitions follow the
  specification; the theorems below compare the code with them.
\<close>

definition coversInstant :: "reservation \<Rightarrow> int \<Rightarrow> bool" where
  "coversInstant r t =
     (case timeToMinutes (startTime r) of
        None \<Rightarrow> False
      | Some a \<Rightarrow> (case timeToMinutes (endTime r) of None \<Rightarrow> False | Some b \<Rightarrow> a \<le> t \<and> t < b))"

definition occupancyAt :: "string \<Rightarrow> int \<Rightarrow> reservation list \<Rightarrow> int" where
  "occupancyAt dateStr t reservations =
     sum_list (map requiredSlots
       (filter (\<lambda>r. status r = ''confirmed'' \<and> date r = dateStr \<and> coversInstant r t)
          reservations))"

text \<open>
  The instants a booking covers: from the start, in steps of the interval, as long as
  they are before the end.
\<close>

definition coveredInstants :: "int \<Rightarrow> int \<Rightarrow> int \<Rightarrow> int list" where
  "coveredInstants startMin endMin interval =
     map (\<lambda>k. startMin + int k * interval)
       [0 ..< nat ((endMin - startMin + interval - 1) div interval)]"

section \<open>Time labels are read back as written\<close>

lemma upt_10: "[0..<10] = [0, 1, 2, 3, 4, 5, 6, 7, 8, 9 :: nat]"
  by code_simp

lemma digitVal_digitChar: "d < 10 \<Longrightarrow> digitVal (digitChar d) = Some d"
proof -
  assume "d < 10"
  then have "d \<in> set [0..<10]" by simp
  then have "d \<in> {0, 1, 2, 3, 4, 5, 6, 7, 8, 9}" unfolding upt_10 by simp
  then show ?thesis
    by (auto simp: digitVal_def digitChar_def)
qed

lemma digitVal_colon: "digitVal CHR '':'' = None" "digitVal CHR ''-'' = None"
  by (simp_all add: digitVal_def)

lemma digitsToNat_snoc:
  "digitsToNat acc (xs @ [c]) =
     (case digitsToNat acc xs of None \<Rightarrow> None
      | Some a \<Rightarrow> (case digitVal c of None \<Rightarrow> None | Some d \<Rightarrow> Some (a * 10 + d)))"
  by (induction xs arbitrary: acc) (auto split: option.splits)

lemma digitsToNat_natToString: "digitsToNat 0 (natToString n) = Some n"
proof (induction n rule: natToString.induct)
  case (1 n)
  show ?case
  proof (cases "n < 10")
    case True
    then show ?thesis by (subst natToString.simps) (simp add: digitVal_digitChar)
  next
    case False
    with 1 have "digitsToNat 0 (natToString (n div 10)) = Some (n div 10)" by simp
    with False show ?thesis
      by (subst natToString.simps) (simp add: digitsToNat_snoc digitVal_digitChar)
  qed
qed

lemma digitsToNat_Some_digits: "digitsToNat acc xs = Some n \<Longrightarrow> \<forall>c\<in>set xs. digitVal c \<noteq> None"
  by (induction xs arbitrary: acc) (auto split: option.splits)

lemma natToString_digits: "c \<in> set (natToString n) \<Longrightarrow> digitVal c \<noteq> None"
  using digitsToNat_Some_digits [OF digitsToNat_natToString] by blast

lemma natToString_not_Nil: "natToString n \<noteq> []"
  by (subst natToString.simps) simp

lemma digitsToNat_zeros: "digitsToNat 0 (replicate k CHR ''0'' @ xs) = digitsToNat 0 xs"
  by (induction k) (simp_all add: digitVal_def)

lemma jsNumber_digits:
  assumes "digitsToNat 0 xs = Some n"
  shows "jsNumber xs = Some (int n)"
proof (cases xs)
  case Nil
  with assms show ?thesis by (simp add: jsNumber_def)
next
  case (Cons c cs)
  with assms have "digitVal c \<noteq> None" by (auto split: option.splits)
  then have "c \<noteq> CHR ''-''" using digitVal_colon by auto
  with Cons assms show ?thesis by (simp add: jsNumber_def)
qed

lemma jsNumber_pad2: "jsNumber (pad2 n) = Some n"
proof (cases "n < 0")
  case True
  have len: "length (natToString (nat (- n))) \<ge> 1"
    using natToString_not_Nil [of "nat (- n)"] by (cases "natToString (nat (- n))") auto
  then have "pad2 n = CHR ''-'' # natToString (nat (- n))"
    using True by (simp add: pad2_def padStart2_def jsString_def)
  then show ?thesis using True
    by (simp add: jsNumber_def natToString_not_Nil digitsToNat_natToString)
next
  case False
  then have "pad2 n = replicate (2 - length (natToString (nat n))) CHR ''0'' @ natToString (nat n)"
    by (simp add: pad2_def padStart2_def jsString_def)
  moreover have "digitsToNat 0 (replicate (2 - length (natToString (nat n))) CHR ''0'' @ natToString (nat n)) = Some (nat n)"
    by (simp add: digitsToNat_zeros digitsToNat_natToString)
  ultimately show ?thesis using False jsNumber_digits by fastforce
qed

lemma jsString_no_colon: "CHR '':'' \<notin> set (jsString n)"
proof -
  have "CHR '':'' \<notin> set (natToString k)" for k
    using natToString_digits [of "CHR '':''" k] digitVal_colon by auto
  then show ?thesis by (simp add: jsString_def)
qed

lemma pad2_no_colon: "CHR '':'' \<notin> set (pad2 n)"
proof -
  have "set (pad2 n) \<subseteq> {CHR ''0''} \<union> set (jsString n)"
    unfolding pad2_def padStart2_def by (simp add: subset_iff)
  then show ?thesis using jsString_no_colon [of n] by auto
qed

lemma splitColon_no_colon: "CHR '':'' \<notin> set xs \<Longrightarrow> splitColon xs = [xs]"
  by (induction xs) auto

lemma splitColon_append:
  "CHR '':'' \<notin> set xs \<Longrightarrow> splitColon (xs @ CHR '':'' # ys) = xs # splitColon ys"
  by (induction xs) auto

lemma timeToMinutes_fmtTime: "timeToMinutes (fmtTime h m) = Some (h * 60 + m)"
  by (simp add: timeToMinutes_def fmtTime_def splitColon_append splitColon_no_colon
      pad2_no_colon jsNumber_pad2)

lemma jsRem_nonneg: "0 \<le> a \<Longrightarrow> jsRem a 60 = a mod 60"
  by (cases "a = 0") (simp_all add: jsRem_def)

lemma timeToMinutes_label: "0 \<le> m \<Longrightarrow> timeToMinutes (fmtTime (m div 60) (jsRem m 60)) = Some m"
  by (simp add: timeToMinutes_fmtTime jsRem_nonneg)

section \<open>Occupancy as a sum\<close>

lemma foldl_occ:
  "foldl (\<lambda>sum r. if P r then sum + requiredSlots r else sum) acc rs
     = acc + sum_list (map requiredSlots (filter P rs))"
  by (induction rs arbitrary: acc) simp_all

lemma jsGe_jsLt_covers:
  "timeToMinutes lbl = Some t \<Longrightarrow>
   (jsGe (timeToMinutes lbl) (timeToMinutes (startTime r)) \<and> jsLt (timeToMinutes lbl) (timeToMinutes (endTime r)))
     = coversInstant r t"
  by (simp add: jsGe_def jsLt_def coversInstant_def split: option.splits)

lemma getSlotOccupancy_occupancyAt:
  assumes "timeToMinutes lbl = Some t"
  shows "getSlotOccupancy d lbl rs = occupancyAt d t rs"
proof -
  have "getSlotOccupancy d lbl rs =
      foldl (\<lambda>sum r. if coversInstant r t then sum + requiredSlots r else sum) 0
        (filter (\<lambda>r. date r = d \<and> status r = ''confirmed'') rs)"
    unfolding getSlotOccupancy_def Let_def using jsGe_jsLt_covers [OF assms] by simp
  also have "\<dots> = sum_list (map requiredSlots
      (filter (\<lambda>r. coversInstant r t) (filter (\<lambda>r. date r = d \<and> status r = ''confirmed'') rs)))"
    by (simp add: foldl_occ)
  also have "\<dots> = occupancyAt d t rs"
    unfolding occupancyAt_def by (simp add: conj_commute conj_left_commute cong: conj_cong)
  finally show ?thesis .
qed

lemma foldl_keep: "foldl (\<lambda>sum r. sum) a xs = a"
  by (induction xs) simp_all

lemma getSlotOccupancy_NaN:
  assumes "timeToMinutes lbl = None"
  shows "getSlotOccupancy d lbl rs = 0"
proof -
  have "getSlotOccupancy d lbl rs =
      foldl (\<lambda>sum r. if False then sum + requiredSlots r else sum) 0
        (filter (\<lambda>r. date r = d \<and> status r = ''confirmed'') rs)"
    unfolding getSlotOccupancy_def Let_def using assms by (simp add: jsGe_def)
  then show ?thesis by (simp add: foldl_keep)
qed


section \<open>The slot grid loop\<close>

lemma gts_step:
  assumes "h * 60 + m < e"
  shows "\<exists>h' m'. h' * 60 + m' = h * 60 + m + slotIntervalMin s \<and>
           generateTimeSlots_loop s e h m slots =
           generateTimeSlots_loop s e h' m' (slots @ [\<lparr>hour = h, min_s = m, label = fmtTime h m\<rparr>])"
proof (cases "m + slotIntervalMin s \<ge> 60")
  case True
  let ?m' = "m + slotIntervalMin s"
  have "(h + ?m' div 60) * 60 + jsRem ?m' 60 = h * 60 + m + slotIntervalMin s"
    using True by (simp add: jsRem_nonneg algebra_simps)
  moreover have "generateTimeSlots_loop s e h m slots =
           generateTimeSlots_loop s e (h + ?m' div 60) (jsRem ?m' 60) (slots @ [\<lparr>hour = h, min_s = m, label = fmtTime h m\<rparr>])"
    using assms True by (subst generateTimeSlots_loop.simps) (simp add: Let_def)
  ultimately show ?thesis by blast
next
  case False
  have "generateTimeSlots_loop s e h m slots =
           generateTimeSlots_loop s e h (m + slotIntervalMin s) (slots @ [\<lparr>hour = h, min_s = m, label = fmtTime h m\<rparr>])"
    using assms False by (subst generateTimeSlots_loop.simps) (simp add: Let_def)
  moreover have "h * 60 + (m + slotIntervalMin s) = h * 60 + m + slotIntervalMin s" by simp
  ultimately show ?thesis by blast
qed

lemma gts_stop: "\<not> h * 60 + m < e \<Longrightarrow> generateTimeSlots_loop s e h m slots = Some slots"
  by (subst generateTimeSlots_loop.simps) simp

lemma map_upt_Suc_shift: "map f [0..<Suc n] = f 0 # map (\<lambda>k. f (Suc k)) [0..<n]"
  by (simp only: map_Suc_upt [symmetric] upt_conv_Cons [OF zero_less_Suc] list.map map_map o_def)

lemma gts_loop_total:
  assumes "0 < slotIntervalMin s"
  shows "\<exists>new. generateTimeSlots_loop s e h m slots = Some (slots @ new) \<and>
           map slotOffset new = map (\<lambda>k. h * 60 + m + int k * slotIntervalMin s) [0..<length new] \<and>
           (\<forall>sl\<in>set new. label sl = fmtTime (hour sl) (min_s sl) \<and> slotOffset sl < e) \<and>
           e \<le> h * 60 + m + int (length new) * slotIntervalMin s \<and>
           (new = [] \<longleftrightarrow> e \<le> h * 60 + m)"
proof (induction "nat (e - (h * 60 + m))" arbitrary: h m slots rule: less_induct)
  case less
  let ?i = "slotIntervalMin s"
  show ?case
  proof (cases "h * 60 + m < e")
    case False
    then show ?thesis by (intro exI [of _ "[]"]) (simp add: gts_stop)
  next
    case True
    let ?sl = "\<lparr>hour = h, min_s = m, label = fmtTime h m\<rparr>"
    from gts_step [OF True, of s slots] obtain h' m' where
      tot: "h' * 60 + m' = h * 60 + m + ?i" and
      step: "generateTimeSlots_loop s e h m slots = generateTimeSlots_loop s e h' m' (slots @ [?sl])"
      by blast
    have "nat (e - (h' * 60 + m')) < nat (e - (h * 60 + m))"
      using True assms tot by simp
    from less [OF this, of "slots @ [?sl]"] obtain new where
      r: "generateTimeSlots_loop s e h' m' (slots @ [?sl]) = Some ((slots @ [?sl]) @ new)" and
      offs: "map slotOffset new = map (\<lambda>k. h' * 60 + m' + int k * ?i) [0..<length new]" and
      each: "\<forall>sl\<in>set new. label sl = fmtTime (hour sl) (min_s sl) \<and> slotOffset sl < e" and
      upper: "e \<le> h' * 60 + m' + int (length new) * ?i"
      by blast
    have a: "generateTimeSlots_loop s e h m slots = Some (slots @ (?sl # new))"
      using step r by simp
    have b: "map slotOffset (?sl # new) =
        map (\<lambda>k. h * 60 + m + int k * ?i) [0..<length (?sl # new)]"
      using offs tot by (simp add: map_upt_Suc_shift slotOffset_def algebra_simps del: upt_Suc)
    have c: "\<forall>sl\<in>set (?sl # new). label sl = fmtTime (hour sl) (min_s sl) \<and> slotOffset sl < e"
      using each True by (simp add: slotOffset_def)
    have d: "e \<le> h * 60 + m + int (length (?sl # new)) * ?i"
      using upper tot by (simp add: algebra_simps)
    from a b c d True show ?thesis by (intro exI [of _ "?sl # new"]) simp
  qed
qed

text \<open>
  With an interval that is not positive the loop variable never gets closer to the end:
  a run that starts before the end does not return.
\<close>

lemma gts_loop_returns_only_if:
  assumes "generateTimeSlots_loop s0 e0 h0 m0 slots0 = Some y0"
  shows "slotIntervalMin s0 \<le> 0 \<longrightarrow> e0 \<le> h0 * 60 + m0"
proof (rule generateTimeSlots_loop.raw_induct
    [where P = "\<lambda>s e h m slots y. slotIntervalMin s \<le> 0 \<longrightarrow> e \<le> h * 60 + m", OF _ assms])
  fix loop :: "settings \<Rightarrow> int \<Rightarrow> int \<Rightarrow> int \<Rightarrow> slot list \<Rightarrow> slot list option"
    and s e h m slots y
  assume IH: "\<And>s e h m slots y. loop s e h m slots = Some y \<Longrightarrow>
      slotIntervalMin s \<le> 0 \<longrightarrow> e \<le> h * 60 + m"
    and body: "(if h * 60 + m < e
      then let slots' = slots @ [\<lparr>hour = h, min_s = m, label = fmtTime h m\<rparr>];
               m' = m + slotIntervalMin s
           in if 60 \<le> m'
              then loop s e (h + m' div 60) (jsRem m' 60) slots'
              else loop s e h m' slots'
      else Some slots) = Some y"
  show "slotIntervalMin s \<le> 0 \<longrightarrow> e \<le> h * 60 + m"
  proof (intro impI)
    assume i: "slotIntervalMin s \<le> 0"
    show "e \<le> h * 60 + m"
    proof (rule ccontr)
      assume "\<not> e \<le> h * 60 + m"
      then have lt: "h * 60 + m < e" by simp
      let ?m' = "m + slotIntervalMin s"
      show False
      proof (cases "60 \<le> ?m'")
        case True
        with lt body have "loop s e (h + ?m' div 60) (jsRem ?m' 60)
            (slots @ [\<lparr>hour = h, min_s = m, label = fmtTime h m\<rparr>]) = Some y"
          by (simp add: Let_def)
        from IH [OF this] i have "e \<le> (h + ?m' div 60) * 60 + jsRem ?m' 60" by simp
        moreover have "(h + ?m' div 60) * 60 + jsRem ?m' 60 = h * 60 + ?m'"
          using True by (simp add: jsRem_nonneg algebra_simps)
        ultimately show False using lt i by simp
      next
        case False
        with lt body have "loop s e h ?m'
            (slots @ [\<lparr>hour = h, min_s = m, label = fmtTime h m\<rparr>]) = Some y"
          by (simp add: Let_def)
        from IH [OF this] i have "e \<le> h * 60 + ?m'" by simp
        then show False using lt i by simp
      qed
    qed
  qed
qed

lemma gts_loop_diverges:
  "slotIntervalMin s \<le> 0 \<Longrightarrow> h * 60 + m < e \<Longrightarrow> generateTimeSlots_loop s e h m slots = None"
  using gts_loop_returns_only_if [of s e h m slots] by (cases "generateTimeSlots_loop s e h m slots") auto

section \<open>The booking loop\<close>

lemma coveredInstants_Nil: "0 < i \<Longrightarrow> e \<le> m \<Longrightarrow> coveredInstants m e i = []"
proof -
  assume i: "0 < i" and "e \<le> m"
  then have "e - m + i - 1 < i" by simp
  then have "(e - m + i - 1) div i \<le> 0"
    using i by (metis div_pos_pos_trivial linorder_not_less order.refl pos_imp_zdiv_neg_iff less_le_not_le zero_le_numeral)
  then show ?thesis by (simp add: coveredInstants_def)
qed

lemma coveredInstants_Cons:
  assumes i: "0 < i" and lt: "m < e"
  shows "coveredInstants m e i = m # coveredInstants (m + i) e i"
proof -
  let ?n' = "(e - (m + i) + i - 1) div i"
  have "e - m + i - 1 = (e - (m + i) + i - 1) + i" by simp
  then have "(e - m + i - 1) div i = ?n' + 1"
    using i by (metis div_add_self2 less_irrefl)
  moreover have "0 \<le> ?n'"
    using i lt by (simp add: pos_imp_zdiv_nonneg_iff)
  ultimately have n: "nat ((e - m + i - 1) div i) = Suc (nat ?n')"
    by simp
  show ?thesis
    unfolding coveredInstants_def n map_upt_Suc_shift
    by (simp add: algebra_simps)
qed

lemma set_coveredInstants:
  assumes i: "0 < i"
  shows "t \<in> set (coveredInstants m e i) \<longleftrightarrow> (\<exists>k::nat. t = m + int k * i \<and> t < e)"
proof (induction "nat (e - m)" arbitrary: m rule: less_induct)
  case less
  show ?case
  proof (cases "m < e")
    case False
    have "\<not> (\<exists>k::nat. t = m + int k * i \<and> t < e)"
    proof
      assume "\<exists>k::nat. t = m + int k * i \<and> t < e"
      then obtain k :: nat where "t = m + int k * i" "t < e" by blast
      moreover have "0 \<le> int k * i" using i by simp
      ultimately show False using False by linarith
    qed
    with False i show ?thesis by (simp add: coveredInstants_Nil)
  next
    case True
    have "nat (e - (m + i)) < nat (e - m)" using True i by simp
    from less [OF this]
    have IH: "t \<in> set (coveredInstants (m + i) e i) \<longleftrightarrow> (\<exists>k::nat. t = m + i + int k * i \<and> t < e)" .
    have "(\<exists>k::nat. t = m + int k * i \<and> t < e)
        \<longleftrightarrow> t = m \<or> (\<exists>k::nat. t = m + i + int k * i \<and> t < e)"
    proof
      assume "\<exists>k::nat. t = m + int k * i \<and> t < e"
      then obtain k :: nat where k: "t = m + int k * i" "t < e" by blast
      show "t = m \<or> (\<exists>k::nat. t = m + i + int k * i \<and> t < e)"
      proof (cases k)
        case 0
        with k show ?thesis by simp
      next
        case (Suc j)
        with k have "t = m + i + int j * i \<and> t < e" by (simp add: algebra_simps)
        then show ?thesis by blast
      qed
    next
      assume "t = m \<or> (\<exists>k::nat. t = m + i + int k * i \<and> t < e)"
      then show "\<exists>k::nat. t = m + int k * i \<and> t < e"
      proof
        assume "t = m"
        with True have "t = m + int 0 * i \<and> t < e" by simp
        then show ?thesis by blast
      next
        assume "\<exists>k::nat. t = m + i + int k * i \<and> t < e"
        then obtain k :: nat where "t = m + i + int k * i" "t < e" by blast
        then have "t = m + int (Suc k) * i \<and> t < e" by (simp add: algebra_simps)
        then show ?thesis by blast
      qed
    qed
    with IH True i show ?thesis by (simp add: coveredInstants_Cons)
  qed
qed

lemma canBook_loop_step:
  assumes "m < e" and "0 \<le> m"
  shows "canBook_loop d p rs s e m =
     (if occupancyAt d m rs + requiredSlots_p p > maxCapacity s then Some False
      else canBook_loop d p rs s e (m + slotIntervalMin s))"
  using assms
  by (subst canBook_loop.simps)
     (simp add: Let_def getSlotOccupancy_occupancyAt [OF timeToMinutes_label])

lemma canBook_loop_stop: "\<not> m < e \<Longrightarrow> canBook_loop d p rs s e m = Some True"
  by (subst canBook_loop.simps) simp

lemma canBook_loop_closed:
  assumes i: "0 < slotIntervalMin s"
  shows "0 \<le> m \<Longrightarrow> canBook_loop d p rs s e m =
     Some (\<forall>t \<in> set (coveredInstants m e (slotIntervalMin s)).
             occupancyAt d t rs + requiredSlots_p p \<le> maxCapacity s)"
proof (induction "nat (e - m)" arbitrary: m rule: less_induct)
  case less
  show ?case
  proof (cases "m < e")
    case False
    with i show ?thesis by (simp add: canBook_loop_stop coveredInstants_Nil)
  next
    case True
    have "nat (e - (m + slotIntervalMin s)) < nat (e - m)" using True i by simp
    moreover have "0 \<le> m + slotIntervalMin s" using less.prems i by simp
    ultimately have IH: "canBook_loop d p rs s e (m + slotIntervalMin s) =
        Some (\<forall>t \<in> set (coveredInstants (m + slotIntervalMin s) e (slotIntervalMin s)).
             occupancyAt d t rs + requiredSlots_p p \<le> maxCapacity s)"
      by (rule less.hyps)
    show ?thesis
      unfolding canBook_loop_step [OF True less.prems] IH coveredInstants_Cons [OF i True]
      by auto
  qed
qed

text \<open>The loop reads two fields of the settings only.\<close>

lemma canBook_loop_settings_Some:
  assumes "canBook_loop d0 p0 rs0 s0 e0 m0 = Some y0"
  shows "\<forall>s'::settings. maxCapacity s' = maxCapacity s0 \<and> slotIntervalMin s' = slotIntervalMin s0
           \<longrightarrow> canBook_loop d0 p0 rs0 s' e0 m0 = Some y0"
proof (rule canBook_loop.raw_induct
    [where P = "\<lambda>d p rs s e m y. \<forall>s'::settings. maxCapacity s' = maxCapacity s \<and> slotIntervalMin s' = slotIntervalMin s
           \<longrightarrow> canBook_loop d p rs s' e m = Some y", OF _ assms])
  fix loop :: "string \<Rightarrow> product \<Rightarrow> reservation list \<Rightarrow> settings \<Rightarrow> int \<Rightarrow> int \<Rightarrow> bool option"
    and d p rs s e m y
  assume IH: "\<And>d p rs s e m y. loop d p rs s e m = Some y \<Longrightarrow>
      \<forall>s'::settings. maxCapacity s' = maxCapacity s \<and> slotIntervalMin s' = slotIntervalMin s
           \<longrightarrow> canBook_loop d p rs s' e m = Some y"
    and body: "(if m < e
      then let slotLabel = fmtTime (m div 60) (jsRem m 60);
               occ = getSlotOccupancy d slotLabel rs
           in if maxCapacity s < occ + requiredSlots_p p then Some False
              else loop d p rs s e (m + slotIntervalMin s)
      else Some True) = Some y"
  show "\<forall>s'::settings. maxCapacity s' = maxCapacity s \<and> slotIntervalMin s' = slotIntervalMin s
           \<longrightarrow> canBook_loop d p rs s' e m = Some y"
  proof (intro allI impI)
    fix s' :: settings
    assume eq: "maxCapacity s' = maxCapacity s \<and> slotIntervalMin s' = slotIntervalMin s"
    show "canBook_loop d p rs s' e m = Some y"
    proof (cases "m < e")
      case False
      with body show ?thesis by (subst canBook_loop.simps) simp
    next
      case True
      show ?thesis
      proof (cases "maxCapacity s < getSlotOccupancy d (fmtTime (m div 60) (jsRem m 60)) rs + requiredSlots_p p")
        case over: True
        with True body eq show ?thesis by (subst canBook_loop.simps) (simp add: Let_def)
      next
        case fits: False
        with True body have "loop d p rs s e (m + slotIntervalMin s) = Some y"
          by (simp add: Let_def)
        from IH [OF this] eq have "canBook_loop d p rs s' e (m + slotIntervalMin s) = Some y"
          by blast
        with True fits eq show ?thesis by (subst canBook_loop.simps) (simp add: Let_def)
      qed
    qed
  qed
qed

lemma canBook_loop_settings:
  assumes "maxCapacity s' = maxCapacity s" and "slotIntervalMin s' = slotIntervalMin s"
  shows "canBook_loop d p rs s' e m = canBook_loop d p rs s e m"
proof (cases "canBook_loop d p rs s e m")
  case (Some y)
  from canBook_loop_settings_Some [OF this] assms show ?thesis using Some by simp
next
  case None
  show ?thesis
  proof (cases "canBook_loop d p rs s' e m")
    case (Some y)
    from canBook_loop_settings_Some [OF this] assms have "canBook_loop d p rs s e m = Some y"
      by simp
    with None show ?thesis by simp
  next
    case n: None
    with None show ?thesis by simp
  qed
qed

section \<open>Cancelling one reservation\<close>

lemma handleCancel_nth:
  "i < length rs \<Longrightarrow>
   handleCancel ident rs ! i = (if id_r (rs ! i) = ident then (rs ! i)\<lparr>status := ''cancelled''\<rparr> else rs ! i)"
  by (simp add: handleCancel_def)

lemma cancelled_fields:
  assumes "r' = (if id_r r = ident then r\<lparr>status := ''cancelled''\<rparr> else r)"
  shows "id_r r' = id_r r \<and> name r' = name r \<and> phone r' = phone r \<and> note_r r' = note_r r
      \<and> startTime r' = startTime r \<and> endTime r' = endTime r \<and> date r' = date r
      \<and> productId r' = productId r \<and> productName r' = productName r
      \<and> requiredSlots r' = requiredSlots r \<and> durationMin r' = durationMin r
      \<and> createdAt r' = createdAt r
      \<and> (id_r r = ident \<longrightarrow> status r' = ''cancelled'')
      \<and> (id_r r \<noteq> ident \<longrightarrow> r' = r)"
proof (cases "id_r r = ident")
  case True
  with assms have "r' = r\<lparr>status := ''cancelled''\<rparr>" by simp
  then show ?thesis using True by simp
next
  case False
  with assms have "r' = r" by simp
  then show ?thesis using False by simp
qed

section \<open>The sample data, evaluated\<close>

lemma sampleReservations_eq:
  "sampleReservations =
    [\<lparr>id_r = ''r1'', name = ''Sato'', phone = ''0600000001'', note_r = [],
      startTime = ''10:00'', endTime = ''12:00'', date = ''2026-01-05'',
      productId = ''half'', productName = ''haafu'', requiredSlots = 3, durationMin = 120,
      status = ''confirmed'', createdAt = ''2026-01-01T09:00:00.000Z''\<rparr>,
     \<lparr>id_r = ''r2'', name = ''Tanaka'', phone = ''0600000002'', note_r = [],
      startTime = ''10:30'', endTime = ''12:30'', date = ''2026-01-05'',
      productId = ''half'', productName = ''haafu'', requiredSlots = 3, durationMin = 120,
      status = ''confirmed'', createdAt = ''2026-01-02T09:00:00.000Z''\<rparr>]"
  by code_simp

section \<open>Occupancy when the reservation set changes\<close>

lemma getSlotOccupancy_cases:
  "getSlotOccupancy d lbl rs =
     (case timeToMinutes lbl of None \<Rightarrow> 0 | Some t \<Rightarrow> occupancyAt d t rs)"
  by (cases "timeToMinutes lbl") (simp_all add: getSlotOccupancy_NaN getSlotOccupancy_occupancyAt)

lemma coversInstant_iff:
  "coversInstant r t \<longleftrightarrow>
     (\<exists>a b. timeToMinutes (startTime r) = Some a \<and> timeToMinutes (endTime r) = Some b
        \<and> a \<le> t \<and> t < b)"
  by (simp add: coversInstant_def split: option.splits)

lemma coversInstant_status: "coversInstant (r\<lparr>status := x\<rparr>) t = coversInstant r t"
  by (simp add: coversInstant_iff)

lemma occupancyAt_insert:
  "occupancyAt d t (rs1 @ r # rs2) =
     occupancyAt d t (rs1 @ rs2)
       + (if status r = ''confirmed'' \<and> date r = d \<and> coversInstant r t then requiredSlots r else 0)"
  by (simp add: occupancyAt_def)

lemma occupancyAt_handleCancel:
  "occupancyAt d t (handleCancel ident rs) = occupancyAt d t (filter (\<lambda>r. id_r r \<noteq> ident) rs)"
proof (induction rs)
  case Nil
  show ?case by (simp add: handleCancel_def occupancyAt_def)
next
  case (Cons r rs)
  have step: "occupancyAt d t (x # xs) =
      (if status x = ''confirmed'' \<and> date x = d \<and> coversInstant x t then requiredSlots x else 0)
        + occupancyAt d t xs" for x xs
    by (simp add: occupancyAt_def)
  have hc: "handleCancel ident (r # rs) =
      (if id_r r = ident then r\<lparr>status := ''cancelled''\<rparr> else r) # handleCancel ident rs"
    by (simp add: handleCancel_def)
  show ?case
  proof (cases "id_r r = ident")
    case True
    then show ?thesis using Cons.IH by (simp add: hc step)
  next
    case False
    then show ?thesis using Cons.IH by (simp add: hc step)
  qed
qed

lemma occupancyAt_filter_le:
  "(\<forall>r\<in>set rs. \<not> P r \<longrightarrow> 0 \<le> requiredSlots r) \<Longrightarrow>
   occupancyAt d t (filter P rs) \<le> occupancyAt d t rs"
  by (induction rs) (auto simp: occupancyAt_def)

lemma occupancyAt_handleCancel_le:
  assumes "\<forall>r\<in>set rs. id_r r = ident \<longrightarrow> 0 \<le> requiredSlots r"
  shows "occupancyAt d t (handleCancel ident rs) \<le> occupancyAt d t rs"
  unfolding occupancyAt_handleCancel
  by (rule occupancyAt_filter_le) (use assms in simp)

lemma coveredInstants_bounds:
  assumes "0 < i" and "t \<in> set (coveredInstants m e i)"
  shows "m \<le> t \<and> t < e"
proof -
  from assms obtain k :: nat where k: "t = m + int k * i" "t < e"
    using set_coveredInstants by blast
  have "0 \<le> int k * i" using assms(1) by simp
  with k show ?thesis by simp
qed

text \<open>
  The validator's answer in closed form, for a start that reads as a time of the day and
  a positive interval.
\<close>

lemma canBook_closed:
  assumes "timeToMinutes startLabel = Some st" and "0 \<le> st" and "0 < slotIntervalMin s"
  shows "canBook d startLabel p rs s =
     Some (st + durationMin_p p \<le> closeHour s * 60 + closeMin s
           \<and> (\<forall>t \<in> set (coveredInstants st (st + durationMin_p p) (slotIntervalMin s)).
                 occupancyAt d t rs + requiredSlots_p p \<le> maxCapacity s))"
  using assms by (simp add: canBook_def Let_def canBook_loop_closed not_less)

text \<open>The last covered instant of a booking of positive duration.\<close>

lemma last_instant:
  assumes i: "(0::int) < i" and d: "0 < dur"
  shows "0 \<le> (dur - 1) div i \<and> (dur - 1) div i * i < dur \<and> dur \<le> (dur - 1) div i * i + i"
proof -
  have split: "dur - 1 = (dur - 1) div i * i + (dur - 1) mod i"
    by simp
  have "0 \<le> (dur - 1) mod i" and "(dur - 1) mod i < i"
    using i by simp_all
  with split have "(dur - 1) div i * i \<le> dur - 1" and "dur - 1 < (dur - 1) div i * i + i"
    by linarith+
  moreover have "0 \<le> (dur - 1) div i"
    using i d by (simp add: pos_imp_zdiv_nonneg_iff)
  ultimately show ?thesis by simp
qed

section \<open>The slot grid as a whole\<close>

lemma sorted_steps:
  assumes "(0::int) < i"
  shows "sorted_wrt (<) (map (\<lambda>k. a + int k * i) [0..<n])"
proof -
  have "sorted_wrt (\<lambda>x y. a + int x * i < a + int y * i) [0..<n]"
    by (rule sorted_wrt_mono_rel [OF _ sorted_wrt_upt]) (use assms in simp)
  then show ?thesis by (simp add: sorted_wrt_map)
qed

lemma generateTimeSlots_grid:
  assumes i: "0 < slotIntervalMin s"
  shows "\<exists>slots. generateTimeSlots s = Some slots
     \<and> map slotOffset slots
         = map (\<lambda>k. openHour s * 60 + openMin s + int k * slotIntervalMin s) [0..<length slots]
     \<and> (\<forall>sl\<in>set slots. label sl = fmtTime (hour sl) (min_s sl)
           \<and> openHour s * 60 + openMin s \<le> slotOffset sl
           \<and> slotOffset sl < closeHour s * 60 + closeMin s)
     \<and> closeHour s * 60 + closeMin s
         \<le> openHour s * 60 + openMin s + int (length slots) * slotIntervalMin s
     \<and> (slots = [] \<longleftrightarrow> closeHour s * 60 + closeMin s \<le> openHour s * 60 + openMin s)"
proof -
  let ?o = "openHour s * 60 + openMin s" and ?c = "closeHour s * 60 + closeMin s"
  from gts_loop_total [OF i, of ?c "openHour s" "openMin s" "[]"]
  obtain slots where r: "generateTimeSlots s = Some slots"
    and offs: "map slotOffset slots = map (\<lambda>k. ?o + int k * slotIntervalMin s) [0..<length slots]"
    and each: "\<forall>sl\<in>set slots. label sl = fmtTime (hour sl) (min_s sl) \<and> slotOffset sl < ?c"
    and upper: "?c \<le> ?o + int (length slots) * slotIntervalMin s"
    and empty: "slots = [] \<longleftrightarrow> ?c \<le> ?o"
    unfolding generateTimeSlots_def by auto
  have "?o \<le> slotOffset sl" if "sl \<in> set slots" for sl
  proof -
    from that have "slotOffset sl \<in> set (map slotOffset slots)" by simp
    then obtain k :: nat where "slotOffset sl = ?o + int k * slotIntervalMin s"
      unfolding offs by auto
    moreover have "0 \<le> int k * slotIntervalMin s" using i by simp
    ultimately show ?thesis by simp
  qed
  with r offs each upper empty show ?thesis by blast
qed

lemma slot_label_offset:
  "label sl = fmtTime (hour sl) (min_s sl) \<Longrightarrow> timeToMinutes (label sl) = Some (slotOffset sl)"
  by (simp add: timeToMinutes_fmtTime slotOffset_def)

section \<open>The availability sum\<close>

lemma foldl_add_sum: "foldl (\<lambda>total x. total + f x) a xs = a + sum_list (map f xs)"
  for a :: int
  by (induction xs arbitrary: a) simp_all

lemma occupancyAt_nonneg:
  assumes "\<forall>r\<in>set rs. 0 \<le> requiredSlots r"
  shows "0 \<le> occupancyAt d t rs"
  unfolding occupancyAt_def by (rule sum_list_nonneg) (use assms in auto)

lemma sum_list_bounds:
  fixes f :: "'a \<Rightarrow> int"
  assumes "\<forall>x\<in>set xs. 0 \<le> f x \<and> f x \<le> c"
  shows "0 \<le> sum_list (map f xs) \<and> sum_list (map f xs) \<le> int (length xs) * c"
  using assms by (induction xs) (auto simp: algebra_simps)

lemma getDateAvailability_sum:
  assumes "generateTimeSlots s = Some slots"
    and "\<forall>sl\<in>set slots. label sl = fmtTime (hour sl) (min_s sl)"
  shows "getDateAvailability d rs s =
     Some (jsDivide
       (sum_list (map (\<lambda>sl. max 0 (maxCapacity s - occupancyAt d (slotOffset sl) rs)) slots))
       (int (length slots) * maxCapacity s))"
proof -
  have "getSlotOccupancy d (label sl) rs = occupancyAt d (slotOffset sl) rs"
    if "sl \<in> set slots" for sl
    using that assms(2) by (intro getSlotOccupancy_occupancyAt slot_label_offset) blast
  then have "map (\<lambda>sl. max 0 (maxCapacity s - getSlotOccupancy d (label sl) rs)) slots
      = map (\<lambda>sl. max 0 (maxCapacity s - occupancyAt d (slotOffset sl) rs)) slots"
    by (intro map_cong refl) simp
  then have eq: "sum_list (map (\<lambda>sl. max 0 (maxCapacity s - getSlotOccupancy d (label sl) rs)) slots)
      = sum_list (map (\<lambda>sl. max 0 (maxCapacity s - occupancyAt d (slotOffset sl) rs)) slots)"
    by (rule arg_cong)
  show ?thesis
    using assms(1) by (simp add: getDateAvailability_def Let_def foldl_add_sum eq)
qed

section \<open>Where the holiday list is read\<close>

text \<open>
  The day button is the only reader of the holiday list: a click on a holiday selects
  nothing, and the validator's answer is the same for every holiday list.
\<close>

lemma dayButtonClick_holiday:
  "dateStr \<in> set (holidays (settings_a st)) \<Longrightarrow> dayButtonClick past dateStr st = st"
  by (simp add: dayButtonClick_def)

lemma canBook_ignores_holidays:
  "canBook dateStr startLabel prodt rs (s\<lparr>holidays := hs\<rparr>) = canBook dateStr startLabel prodt rs s"
proof -
  have loop: "canBook_loop dateStr prodt rs (s\<lparr>holidays := hs\<rparr>) e m
      = canBook_loop dateStr prodt rs s e m" for e m
    by (rule canBook_loop_settings) simp_all
  show ?thesis
    unfolding canBook_def Let_def loop by (cases "timeToMinutes startLabel") simp_all
qed

section \<open>The claims\<close>

subsection \<open>Bookings that would end after closing time\<close>

text \<open>
  Claim C4. When the start label reads as a time and that time plus the product's
  duration is later than the closing time, in minutes of the day, \<^verbatim>\<open>canBook\<close> returns
  false, whatever the reservations and the capacity are.
\<close>

theorem canBook_rejects_past_close:
  assumes "timeToMinutes startLabel = Some startMin"
    and "startMin + durationMin_p prodt > closeHour s * 60 + closeMin s"
  shows "canBook dateStr startLabel prodt reservations s = Some False"
  using assms by (simp add: canBook_def Let_def)

text \<open>
  The specification's scenario: the 240-minute product asked for at 18:00 with the default
  closing time 19:00.
\<close>

theorem canBook_rejects_past_close_witness:
  "timeToMinutes ''18:00'' = Some 1080
   \<and> 1080 + durationMin_p (PRODUCTS ! 4)
       > closeHour DEFAULT_SETTINGS * 60 + closeMin DEFAULT_SETTINGS
   \<and> canBook ''2026-01-05'' ''18:00'' (PRODUCTS ! 4) [] DEFAULT_SETTINGS = Some False"
proof -
  have a: "timeToMinutes ''18:00'' = Some 1080"
    by code_simp
  have b: "1080 + durationMin_p (PRODUCTS ! 4)
      > closeHour DEFAULT_SETTINGS * 60 + closeMin DEFAULT_SETTINGS"
    by (simp add: PRODUCTS_def DEFAULT_SETTINGS_def)
  from canBook_rejects_past_close [OF a b] a b show ?thesis by simp
qed

subsection \<open>What cancelling leaves alone\<close>

text \<open>
  Claim C10. The set transformation of \<^verbatim>\<open>handleCancel\<close> keeps the length and the order
  of the reservation list. At every position the identifier, date, start and end time,
  product snapshot, customer name, phone, note and creation time are the ones from before;
  a reservation whose identifier is the given one gets the status cancelled, and every
  other reservation is unchanged as a whole.
\<close>

theorem handleCancel_frame:
  "length (handleCancel ident rs) = length rs
   \<and> (\<forall>i < length rs.
        id_r (handleCancel ident rs ! i) = id_r (rs ! i)
      \<and> name (handleCancel ident rs ! i) = name (rs ! i)
      \<and> phone (handleCancel ident rs ! i) = phone (rs ! i)
      \<and> note_r (handleCancel ident rs ! i) = note_r (rs ! i)
      \<and> startTime (handleCancel ident rs ! i) = startTime (rs ! i)
      \<and> endTime (handleCancel ident rs ! i) = endTime (rs ! i)
      \<and> date (handleCancel ident rs ! i) = date (rs ! i)
      \<and> productId (handleCancel ident rs ! i) = productId (rs ! i)
      \<and> productName (handleCancel ident rs ! i) = productName (rs ! i)
      \<and> requiredSlots (handleCancel ident rs ! i) = requiredSlots (rs ! i)
      \<and> durationMin (handleCancel ident rs ! i) = durationMin (rs ! i)
      \<and> createdAt (handleCancel ident rs ! i) = createdAt (rs ! i)
      \<and> (id_r (rs ! i) = ident \<longrightarrow> status (handleCancel ident rs ! i) = ''cancelled'')
      \<and> (id_r (rs ! i) \<noteq> ident \<longrightarrow> handleCancel ident rs ! i = rs ! i))"
proof (rule conjI)
  show "length (handleCancel ident rs) = length rs"
    by (simp add: handleCancel_def)
next
  have "id_r (handleCancel ident rs ! i) = id_r (rs ! i)
      \<and> name (handleCancel ident rs ! i) = name (rs ! i)
      \<and> phone (handleCancel ident rs ! i) = phone (rs ! i)
      \<and> note_r (handleCancel ident rs ! i) = note_r (rs ! i)
      \<and> startTime (handleCancel ident rs ! i) = startTime (rs ! i)
      \<and> endTime (handleCancel ident rs ! i) = endTime (rs ! i)
      \<and> date (handleCancel ident rs ! i) = date (rs ! i)
      \<and> productId (handleCancel ident rs ! i) = productId (rs ! i)
      \<and> productName (handleCancel ident rs ! i) = productName (rs ! i)
      \<and> requiredSlots (handleCancel ident rs ! i) = requiredSlots (rs ! i)
      \<and> durationMin (handleCancel ident rs ! i) = durationMin (rs ! i)
      \<and> createdAt (handleCancel ident rs ! i) = createdAt (rs ! i)
      \<and> (id_r (rs ! i) = ident \<longrightarrow> status (handleCancel ident rs ! i) = ''cancelled'')
      \<and> (id_r (rs ! i) \<noteq> ident \<longrightarrow> handleCancel ident rs ! i = rs ! i)"
    if "i < length rs" for i
    using cancelled_fields [OF handleCancel_nth [OF that]] .
  then show "\<forall>i < length rs.
        id_r (handleCancel ident rs ! i) = id_r (rs ! i)
      \<and> name (handleCancel ident rs ! i) = name (rs ! i)
      \<and> phone (handleCancel ident rs ! i) = phone (rs ! i)
      \<and> note_r (handleCancel ident rs ! i) = note_r (rs ! i)
      \<and> startTime (handleCancel ident rs ! i) = startTime (rs ! i)
      \<and> endTime (handleCancel ident rs ! i) = endTime (rs ! i)
      \<and> date (handleCancel ident rs ! i) = date (rs ! i)
      \<and> productId (handleCancel ident rs ! i) = productId (rs ! i)
      \<and> productName (handleCancel ident rs ! i) = productName (rs ! i)
      \<and> requiredSlots (handleCancel ident rs ! i) = requiredSlots (rs ! i)
      \<and> durationMin (handleCancel ident rs ! i) = durationMin (rs ! i)
      \<and> createdAt (handleCancel ident rs ! i) = createdAt (rs ! i)
      \<and> (id_r (rs ! i) = ident \<longrightarrow> status (handleCancel ident rs ! i) = ''cancelled'')
      \<and> (id_r (rs ! i) \<noteq> ident \<longrightarrow> handleCancel ident rs ! i = rs ! i)"
    by (intro allI impI)
qed

text \<open>Cancelling the first of the two sample reservations.\<close>

theorem handleCancel_frame_witness:
  "length (handleCancel ''r1'' sampleReservations) = 2
   \<and> status (handleCancel ''r1'' sampleReservations ! 0) = ''cancelled''
   \<and> startTime (handleCancel ''r1'' sampleReservations ! 0) = ''10:00''
   \<and> requiredSlots (handleCancel ''r1'' sampleReservations ! 0) = 3
   \<and> handleCancel ''r1'' sampleReservations ! 1 = sampleReservations ! 1"
  using handleCancel_frame [of "''r1''" sampleReservations]
  by (simp add: sampleReservations_eq)

subsection \<open>The administration panel's delete button\<close>

text \<open>
  Claim C8, as stated, says that the operator's delete takes the reservation out of the
  set. The delete button runs \<^verbatim>\<open>handleCancel\<close>: after deleting the first sample
  reservation its identifier is still in the set.
\<close>

theorem delete_removes_record_counterexample:
  "''r1'' \<in> set (map id_r (onDeleteReservation ''r1'' sampleReservations))"
  by (simp add: onDeleteReservation_def handleCancel_def sampleReservations_eq)

text \<open>
  Claim C8, amended. The operator's delete is the same set transformation as the
  cancellation: the identifiers in the set, and their order, are unchanged, and every
  reservation with the given identifier is in the set with the status cancelled.
\<close>

theorem delete_is_cancel:
  "onDeleteReservation ident rs = handleCancel ident rs
   \<and> map id_r (onDeleteReservation ident rs) = map id_r rs
   \<and> (\<forall>r \<in> set (onDeleteReservation ident rs). id_r r = ident \<longrightarrow> status r = ''cancelled'')"
proof (intro conjI ballI impI)
  show "onDeleteReservation ident rs = handleCancel ident rs"
    by (simp add: onDeleteReservation_def)
  have same: "id_r (if id_r r = ident then r\<lparr>status := ''cancelled''\<rparr> else r) = id_r r" for r
    using cancelled_fields [OF refl, of r ident] by (rule conjunct1)
  show "map id_r (onDeleteReservation ident rs) = map id_r rs"
    unfolding onDeleteReservation_def handleCancel_def map_map o_def
    by (simp only: same)
next
  fix r assume "r \<in> set (onDeleteReservation ident rs)" and i: "id_r r = ident"
  then have "r \<in> (\<lambda>r. if id_r r = ident then r\<lparr>status := ''cancelled''\<rparr> else r) ` set rs"
    unfolding onDeleteReservation_def handleCancel_def by (simp only: set_map)
  then obtain r0 where
    r: "r = (if id_r r0 = ident then r0\<lparr>status := ''cancelled''\<rparr> else r0)"
    by (rule imageE)
  from cancelled_fields [OF r] i show "status r = ''cancelled''" by metis
qed

theorem delete_is_cancel_witness:
  "map id_r (onDeleteReservation ''r1'' sampleReservations) = [''r1'', ''r2'']
   \<and> (onDeleteReservation ''r1'' sampleReservations ! 0) \<in> set (onDeleteReservation ''r1'' sampleReservations)
   \<and> id_r (onDeleteReservation ''r1'' sampleReservations ! 0) = ''r1''
   \<and> status (onDeleteReservation ''r1'' sampleReservations ! 0) = ''cancelled''"
proof -
  have ids: "map id_r sampleReservations = [''r1'', ''r2'']"
    by (simp add: sampleReservations_eq)
  have len: "0 < length (onDeleteReservation ''r1'' sampleReservations)"
    by (simp add: onDeleteReservation_def handleCancel_def sampleReservations_eq)
  then have mem: "(onDeleteReservation ''r1'' sampleReservations ! 0)
      \<in> set (onDeleteReservation ''r1'' sampleReservations)"
    by (rule nth_mem)
  have first: "id_r (onDeleteReservation ''r1'' sampleReservations ! 0) = ''r1''"
    by (simp add: onDeleteReservation_def handleCancel_def sampleReservations_eq)
  from delete_is_cancel [of "''r1''" sampleReservations]
  have a: "map id_r (onDeleteReservation ''r1'' sampleReservations) = map id_r sampleReservations"
    and b: "\<forall>r \<in> set (onDeleteReservation ''r1'' sampleReservations).
        id_r r = ''r1'' \<longrightarrow> status r = ''cancelled''"
    by blast+
  from b mem first
  have "status (onDeleteReservation ''r1'' sampleReservations ! 0) = ''cancelled''"
    by blast
  with a ids mem first show ?thesis by (simp only: simp_thms)
qed

subsection \<open>Holidays\<close>

text \<open>
  Claim C5 says that a booking for a date in the holiday list is rejected, by the date
  selection and not by the validator. The calendar does refuse to select a holiday, but
  nothing after the selection reads the holiday list: in the session above the day is
  selected first and made a holiday afterwards, the slot picker offers it and the
  confirmation stores it. The run returns a state in which 2026-01-05 is a holiday and the
  one stored reservation, confirmed, from 10:00 to 12:00, is on 2026-01-05.
\<close>

theorem holiday_booked_after_selection:
  "map_option
     (\<lambda>st. (holidays (settings_a st),
            map date (reservations_a st), map status (reservations_a st),
            map startTime (reservations_a st), map endTime (reservations_a st)))
     holidayAfterSelection
   = Some ([''2026-01-05''], [''2026-01-05''], [''confirmed''], [''10:00''], [''12:00''])"
  by code_simp

subsection \<open>Occupancy at an instant\<close>

text \<open>
  Claim C2. \<^verbatim>\<open>getSlotOccupancy\<close> is the sum of the required units of exactly the
  reservations that are confirmed, are on the queried date and hold the queried instant
  in the half-open interval from their start to their end (a label that is not a time
  counts nothing). So a reservation that ends at the queried instant adds nothing. And
  two bookings that meet end to start do not conflict: a reservation that ends no later
  than a proposed booking starts, or starts no earlier than it ends, has no effect on the
  answer of \<^verbatim>\<open>canBook\<close>.
\<close>

theorem occupancy_half_open_sum:
  "getSlotOccupancy dateStr slotLabel rs =
     (case timeToMinutes slotLabel of
        None \<Rightarrow> 0
      | Some t \<Rightarrow>
          sum_list (map requiredSlots
            (filter (\<lambda>r. status r = ''confirmed'' \<and> date r = dateStr \<and> coversInstant r t) rs)))
   \<and> (coversInstant r t \<longleftrightarrow>
        (\<exists>a b. timeToMinutes (startTime r) = Some a \<and> timeToMinutes (endTime r) = Some b
           \<and> a \<le> t \<and> t < b))
   \<and> (timeToMinutes (endTime r) = timeToMinutes slotLabel \<longrightarrow>
        getSlotOccupancy dateStr slotLabel (rs1 @ r # rs2)
          = getSlotOccupancy dateStr slotLabel (rs1 @ rs2))
   \<and> (0 < slotIntervalMin s \<and> timeToMinutes startLabel = Some st \<and> 0 \<le> st
        \<and> ((\<exists>b. timeToMinutes (endTime r) = Some b \<and> b \<le> st)
           \<or> (\<exists>a. timeToMinutes (startTime r) = Some a \<and> st + durationMin_p prodt \<le> a)) \<longrightarrow>
        canBook dateStr startLabel prodt (rs1 @ r # rs2) s
          = canBook dateStr startLabel prodt (rs1 @ rs2) s)"
proof (intro conjI impI)
  show "getSlotOccupancy dateStr slotLabel rs =
     (case timeToMinutes slotLabel of
        None \<Rightarrow> 0
      | Some t \<Rightarrow>
          sum_list (map requiredSlots
            (filter (\<lambda>r. status r = ''confirmed'' \<and> date r = dateStr \<and> coversInstant r t) rs)))"
    unfolding getSlotOccupancy_cases occupancyAt_def ..
  show "coversInstant r t \<longleftrightarrow>
        (\<exists>a b. timeToMinutes (startTime r) = Some a \<and> timeToMinutes (endTime r) = Some b
           \<and> a \<le> t \<and> t < b)"
    by (rule coversInstant_iff)
next
  assume e: "timeToMinutes (endTime r) = timeToMinutes slotLabel"
  show "getSlotOccupancy dateStr slotLabel (rs1 @ r # rs2)
          = getSlotOccupancy dateStr slotLabel (rs1 @ rs2)"
  proof (cases "timeToMinutes slotLabel")
    case None
    then show ?thesis by (simp add: getSlotOccupancy_NaN)
  next
    case (Some u)
    with e have "\<not> coversInstant r u" by (simp add: coversInstant_iff)
    with Some show ?thesis by (simp add: getSlotOccupancy_occupancyAt occupancyAt_insert)
  qed
next
  assume h: "0 < slotIntervalMin s \<and> timeToMinutes startLabel = Some st \<and> 0 \<le> st
        \<and> ((\<exists>b. timeToMinutes (endTime r) = Some b \<and> b \<le> st)
           \<or> (\<exists>a. timeToMinutes (startTime r) = Some a \<and> st + durationMin_p prodt \<le> a))"
  have "occupancyAt dateStr u (rs1 @ r # rs2) = occupancyAt dateStr u (rs1 @ rs2)"
    if "u \<in> set (coveredInstants st (st + durationMin_p prodt) (slotIntervalMin s))" for u
  proof -
    from h that have "st \<le> u \<and> u < st + durationMin_p prodt"
      using coveredInstants_bounds by blast
    with h have "\<not> coversInstant r u" by (auto simp: coversInstant_iff)
    then show ?thesis by (simp add: occupancyAt_insert)
  qed
  with h show "canBook dateStr startLabel prodt (rs1 @ r # rs2) s
          = canBook dateStr startLabel prodt (rs1 @ rs2) s"
    by (simp add: canBook_closed)
qed

text \<open>
  The first sample reservation runs from 10:00 to 12:00. At 12:00 it no longer counts, and
  a booking of the 120-minute product that starts at 12:00 is judged as if it were not in
  the set.
\<close>

theorem occupancy_half_open_sum_witness:
  "timeToMinutes (endTime (hd sampleReservations)) = timeToMinutes ''12:00''
   \<and> getSlotOccupancy ''2026-01-05'' ''12:00'' ([] @ hd sampleReservations # tl sampleReservations)
       = getSlotOccupancy ''2026-01-05'' ''12:00'' ([] @ tl sampleReservations)
   \<and> getSlotOccupancy ''2026-01-05'' ''12:00'' sampleReservations = 3
   \<and> getSlotOccupancy ''2026-01-05'' ''11:30'' sampleReservations = 6
   \<and> canBook ''2026-01-05'' ''12:00'' (PRODUCTS ! 1)
         ([] @ hd sampleReservations # tl sampleReservations) DEFAULT_SETTINGS
       = canBook ''2026-01-05'' ''12:00'' (PRODUCTS ! 1)
         ([] @ tl sampleReservations) DEFAULT_SETTINGS"
proof -
  have e: "timeToMinutes (endTime (hd sampleReservations)) = Some 720"
    by code_simp
  have l: "timeToMinutes ''12:00'' = Some 720"
    by code_simp
  have i: "0 < slotIntervalMin DEFAULT_SETTINGS"
    by (simp add: DEFAULT_SETTINGS_def)
  have o1: "getSlotOccupancy ''2026-01-05'' ''12:00'' sampleReservations = 3"
    by code_simp
  have o2: "getSlotOccupancy ''2026-01-05'' ''11:30'' sampleReservations = 6"
    by code_simp
  note inst = occupancy_half_open_sum
    [of "''2026-01-05''" "''12:00''" sampleReservations "hd sampleReservations" 720
      "[]" "tl sampleReservations" DEFAULT_SETTINGS "''12:00''" 720 "PRODUCTS ! 1"]
  from inst e l
  have a: "getSlotOccupancy ''2026-01-05'' ''12:00'' ([] @ hd sampleReservations # tl sampleReservations)
       = getSlotOccupancy ''2026-01-05'' ''12:00'' ([] @ tl sampleReservations)"
    by simp
  have "\<exists>b. timeToMinutes (endTime (hd sampleReservations)) = Some b \<and> b \<le> 720"
    using e by simp
  moreover have "(0::int) \<le> 720"
    by simp
  ultimately
  have b: "canBook ''2026-01-05'' ''12:00'' (PRODUCTS ! 1)
         ([] @ hd sampleReservations # tl sampleReservations) DEFAULT_SETTINGS
       = canBook ''2026-01-05'' ''12:00'' (PRODUCTS ! 1)
         ([] @ tl sampleReservations) DEFAULT_SETTINGS"
    using inst i l by blast
  from e l a o1 o2 b show ?thesis by (simp only: simp_thms)
qed

subsection \<open>Occupancy under new and cancelled reservations\<close>

text \<open>
  Claim C7. Required units are not negative (the data model makes them positive). Then
  putting a confirmed reservation of the date that holds the instant into the set, at any
  place, raises the occupancy at that instant by its units, so never lowers it; this is
  what \<^verbatim>\<open>handleConfirm\<close> does at the end of the set. A reservation with the status
  cancelled can be put in or taken out without changing the occupancy. And the
  cancellation of \<^verbatim>\<open>handleCancel\<close> never raises the occupancy at any instant of any
  date; a booking the validator accepted before the cancellation is accepted after it.
\<close>

theorem occupancy_monotone:
  "(status r = ''confirmed'' \<and> date r = dateStr \<and> timeToMinutes slotLabel = Some t
      \<and> coversInstant r t \<longrightarrow>
        getSlotOccupancy dateStr slotLabel (rs1 @ r # rs2)
          = getSlotOccupancy dateStr slotLabel (rs1 @ rs2) + requiredSlots r)
   \<and> (date info = dateStr \<and> timeToMinutes slotLabel = Some t \<and> coversInstant info t
      \<and> 0 \<le> requiredSlots info \<longrightarrow>
        getSlotOccupancy dateStr slotLabel rs
          \<le> getSlotOccupancy dateStr slotLabel (handleConfirm info newId now rs))
   \<and> (status r = ''cancelled'' \<longrightarrow>
        getSlotOccupancy dateStr slotLabel (rs1 @ r # rs2)
          = getSlotOccupancy dateStr slotLabel (rs1 @ rs2))
   \<and> ((\<forall>x \<in> set rs. id_r x = ident \<longrightarrow> 0 \<le> requiredSlots x) \<longrightarrow>
        getSlotOccupancy dateStr slotLabel (handleCancel ident rs)
          \<le> getSlotOccupancy dateStr slotLabel rs)
   \<and> ((\<forall>x \<in> set rs. id_r x = ident \<longrightarrow> 0 \<le> requiredSlots x)
      \<and> 0 < slotIntervalMin s \<and> timeToMinutes startLabel = Some st \<and> 0 \<le> st
      \<and> canBook dateStr startLabel prodt rs s = Some True \<longrightarrow>
        canBook dateStr startLabel prodt (handleCancel ident rs) s = Some True)"
proof (intro conjI impI)
  assume "status r = ''confirmed'' \<and> date r = dateStr \<and> timeToMinutes slotLabel = Some t
      \<and> coversInstant r t"
  then show "getSlotOccupancy dateStr slotLabel (rs1 @ r # rs2)
          = getSlotOccupancy dateStr slotLabel (rs1 @ rs2) + requiredSlots r"
    by (simp add: getSlotOccupancy_occupancyAt occupancyAt_insert)
next
  assume h: "date info = dateStr \<and> timeToMinutes slotLabel = Some t \<and> coversInstant info t
      \<and> 0 \<le> requiredSlots info"
  let ?new = "info\<lparr>id_r := newId, status := ''confirmed'', createdAt := now\<rparr>"
  have "coversInstant ?new t = coversInstant info t"
    by (simp add: coversInstant_iff)
  with h have "occupancyAt dateStr t (rs @ ?new # []) = occupancyAt dateStr t (rs @ []) + requiredSlots info"
    unfolding occupancyAt_insert by simp
  with h show "getSlotOccupancy dateStr slotLabel rs
          \<le> getSlotOccupancy dateStr slotLabel (handleConfirm info newId now rs)"
    by (simp add: getSlotOccupancy_occupancyAt handleConfirm_def)
next
  assume c: "status r = ''cancelled''"
  have "occupancyAt dateStr u (rs1 @ r # rs2) = occupancyAt dateStr u (rs1 @ rs2)" for u
    using c by (simp add: occupancyAt_insert)
  then show "getSlotOccupancy dateStr slotLabel (rs1 @ r # rs2)
          = getSlotOccupancy dateStr slotLabel (rs1 @ rs2)"
    by (cases "timeToMinutes slotLabel") (simp_all add: getSlotOccupancy_cases)
next
  assume "\<forall>x \<in> set rs. id_r x = ident \<longrightarrow> 0 \<le> requiredSlots x"
  then have "occupancyAt dateStr u (handleCancel ident rs) \<le> occupancyAt dateStr u rs" for u
    by (rule occupancyAt_handleCancel_le)
  then show "getSlotOccupancy dateStr slotLabel (handleCancel ident rs)
          \<le> getSlotOccupancy dateStr slotLabel rs"
    by (cases "timeToMinutes slotLabel") (simp_all add: getSlotOccupancy_cases)
next
  assume h: "(\<forall>x \<in> set rs. id_r x = ident \<longrightarrow> 0 \<le> requiredSlots x)
      \<and> 0 < slotIntervalMin s \<and> timeToMinutes startLabel = Some st \<and> 0 \<le> st
      \<and> canBook dateStr startLabel prodt rs s = Some True"
  then have le: "occupancyAt dateStr u (handleCancel ident rs) \<le> occupancyAt dateStr u rs" for u
    using occupancyAt_handleCancel_le by blast
  from h have closed: "canBook dateStr startLabel prodt xs s =
     Some (st + durationMin_p prodt \<le> closeHour s * 60 + closeMin s
           \<and> (\<forall>u \<in> set (coveredInstants st (st + durationMin_p prodt) (slotIntervalMin s)).
                 occupancyAt dateStr u xs + requiredSlots_p prodt \<le> maxCapacity s))" for xs
    using canBook_closed by blast
  from h have ok: "st + durationMin_p prodt \<le> closeHour s * 60 + closeMin s"
    and fits: "\<forall>u \<in> set (coveredInstants st (st + durationMin_p prodt) (slotIntervalMin s)).
                 occupancyAt dateStr u rs + requiredSlots_p prodt \<le> maxCapacity s"
    unfolding closed [of rs] by simp_all
  have "\<forall>u \<in> set (coveredInstants st (st + durationMin_p prodt) (slotIntervalMin s)).
                 occupancyAt dateStr u (handleCancel ident rs) + requiredSlots_p prodt \<le> maxCapacity s"
  proof
    fix u assume "u \<in> set (coveredInstants st (st + durationMin_p prodt) (slotIntervalMin s))"
    with fits have "occupancyAt dateStr u rs + requiredSlots_p prodt \<le> maxCapacity s" by blast
    with le [of u] show "occupancyAt dateStr u (handleCancel ident rs) + requiredSlots_p prodt \<le> maxCapacity s"
      by linarith
  qed
  with ok show "canBook dateStr startLabel prodt (handleCancel ident rs) s = Some True"
    unfolding closed [of "handleCancel ident rs"] by simp
qed

text \<open>
  On the sample data, at 11:00: the first reservation accounts for 3 of the 6 units; a
  further one-unit booking from 11:00 would raise the occupancy; the first reservation,
  once cancelled, can be taken out of the set without effect; cancelling it lowers the
  occupancy from 6 to 3; and the one-unit booking at 12:00, accepted before the
  cancellation, is accepted after it.
\<close>

theorem occupancy_monotone_witness:
  "getSlotOccupancy ''2026-01-05'' ''11:00'' ([] @ hd sampleReservations # tl sampleReservations)
     = getSlotOccupancy ''2026-01-05'' ''11:00'' ([] @ tl sampleReservations)
       + requiredSlots (hd sampleReservations)
   \<and> getSlotOccupancy ''2026-01-05'' ''11:00'' sampleReservations
     \<le> getSlotOccupancy ''2026-01-05'' ''11:00''
         (handleConfirm
            (bookingInfo ''2026-01-05'' ''11:00'' (PRODUCTS ! 0) ''Abe'' ''0600000003'' [])
            ''r3'' ''2026-01-03T09:00:00.000Z'' sampleReservations)
   \<and> getSlotOccupancy ''2026-01-05'' ''11:00''
         ([] @ hd (handleCancel ''r1'' sampleReservations) # tl sampleReservations)
     = getSlotOccupancy ''2026-01-05'' ''11:00'' ([] @ tl sampleReservations)
   \<and> getSlotOccupancy ''2026-01-05'' ''11:00'' (handleCancel ''r1'' sampleReservations)
     \<le> getSlotOccupancy ''2026-01-05'' ''11:00'' sampleReservations
   \<and> getSlotOccupancy ''2026-01-05'' ''11:00'' (handleCancel ''r1'' sampleReservations) = 3
   \<and> getSlotOccupancy ''2026-01-05'' ''11:00'' sampleReservations = 6
   \<and> canBook ''2026-01-05'' ''12:00'' (PRODUCTS ! 0) sampleReservations DEFAULT_SETTINGS
     = Some True
   \<and> canBook ''2026-01-05'' ''12:00'' (PRODUCTS ! 0) (handleCancel ''r1'' sampleReservations)
         DEFAULT_SETTINGS
     = Some True"
proof -
  let ?info = "bookingInfo ''2026-01-05'' ''11:00'' (PRODUCTS ! 0) ''Abe'' ''0600000003'' []"
  let ?c = "hd (handleCancel ''r1'' sampleReservations)"
  have l: "timeToMinutes ''11:00'' = Some 660"
    by code_simp
  have l2: "timeToMinutes ''12:00'' = Some 720 \<and> (0::int) \<le> 720"
    by code_simp
  have i: "0 < slotIntervalMin DEFAULT_SETTINGS"
    by (simp add: DEFAULT_SETTINGS_def)
  have r: "status (hd sampleReservations) = ''confirmed''
      \<and> date (hd sampleReservations) = ''2026-01-05''
      \<and> coversInstant (hd sampleReservations) 660"
    by code_simp
  have n: "date ?info = ''2026-01-05'' \<and> coversInstant ?info 660 \<and> 0 \<le> requiredSlots ?info"
    by code_simp
  have c: "status ?c = ''cancelled''"
    by code_simp
  have u: "\<forall>x \<in> set sampleReservations. id_r x = ''r1'' \<longrightarrow> 0 \<le> requiredSlots x"
    by (simp add: sampleReservations_eq)
  have o1: "getSlotOccupancy ''2026-01-05'' ''11:00'' (handleCancel ''r1'' sampleReservations) = 3"
    by code_simp
  have o2: "getSlotOccupancy ''2026-01-05'' ''11:00'' sampleReservations = 6"
    by code_simp
  have b: "canBook ''2026-01-05'' ''12:00'' (PRODUCTS ! 0) sampleReservations DEFAULT_SETTINGS
     = Some True"
    by code_simp
  note inst1 = occupancy_monotone
    [of "hd sampleReservations" "''2026-01-05''" "''11:00''" 660 "[]" "tl sampleReservations"
      ?info sampleReservations "''r3''" "''2026-01-03T09:00:00.000Z''" "''r1''"
      DEFAULT_SETTINGS "''12:00''" 720 "PRODUCTS ! 0"]
  note inst2 = occupancy_monotone
    [of ?c "''2026-01-05''" "''11:00''" 660 "[]" "tl sampleReservations"
      ?info sampleReservations "''r3''" "''2026-01-03T09:00:00.000Z''" "''r1''"
      DEFAULT_SETTINGS "''12:00''" 720 "PRODUCTS ! 0"]
  have g1: "getSlotOccupancy ''2026-01-05'' ''11:00'' ([] @ hd sampleReservations # tl sampleReservations)
     = getSlotOccupancy ''2026-01-05'' ''11:00'' ([] @ tl sampleReservations)
       + requiredSlots (hd sampleReservations)"
    using inst1 l r by blast
  have g2: "getSlotOccupancy ''2026-01-05'' ''11:00'' sampleReservations
     \<le> getSlotOccupancy ''2026-01-05'' ''11:00''
         (handleConfirm ?info ''r3'' ''2026-01-03T09:00:00.000Z'' sampleReservations)"
    using inst1 l n by blast
  have g3: "getSlotOccupancy ''2026-01-05'' ''11:00'' ([] @ ?c # tl sampleReservations)
     = getSlotOccupancy ''2026-01-05'' ''11:00'' ([] @ tl sampleReservations)"
    using inst2 c by blast
  have g4: "getSlotOccupancy ''2026-01-05'' ''11:00'' (handleCancel ''r1'' sampleReservations)
     \<le> getSlotOccupancy ''2026-01-05'' ''11:00'' sampleReservations"
    using inst1 u by blast
  have g5: "canBook ''2026-01-05'' ''12:00'' (PRODUCTS ! 0) (handleCancel ''r1'' sampleReservations)
         DEFAULT_SETTINGS = Some True"
    using inst1 u i l2 b by blast
  from g1 g2 g3 g4 o1 o2 b g5 show ?thesis by (simp only: simp_thms)
qed

subsection \<open>The validator checks every covered instant\<close>

text \<open>
  Claim C1. Take a start label that reads as a time of the day, a positive interval, and a
  booking that ends by closing time. Then \<^verbatim>\<open>canBook\<close> returns, and it returns false
  exactly when at some instant reached from the start in steps of the interval, and
  before the end, the occupancy plus the product's required units is more than the
  capacity. For a positive duration the last of these instants is less than one interval
  before the end, also when the duration is not a multiple of the interval, and too little
  room at that instant alone makes the answer false.
\<close>

theorem canBook_checks_every_covered_instant:
  assumes "timeToMinutes startLabel = Some st" and "0 \<le> st"
    and "0 < slotIntervalMin s"
    and "st + durationMin_p prodt \<le> closeHour s * 60 + closeMin s"
  shows "canBook dateStr startLabel prodt rs s =
           Some (\<not> (\<exists>k::nat. st + int k * slotIntervalMin s < st + durationMin_p prodt
                   \<and> occupancyAt dateStr (st + int k * slotIntervalMin s) rs
                         + requiredSlots_p prodt > maxCapacity s))
         \<and> (0 < durationMin_p prodt \<longrightarrow>
              (let lastInstant = st + (durationMin_p prodt - 1) div slotIntervalMin s * slotIntervalMin s
               in lastInstant < st + durationMin_p prodt
                  \<and> st + durationMin_p prodt \<le> lastInstant + slotIntervalMin s
                  \<and> (occupancyAt dateStr lastInstant rs + requiredSlots_p prodt > maxCapacity s
                       \<longrightarrow> canBook dateStr startLabel prodt rs s = Some False)))"
proof -
  let ?i = "slotIntervalMin s" and ?e = "st + durationMin_p prodt"
  have "(\<forall>t \<in> set (coveredInstants st ?e ?i). occupancyAt dateStr t rs + requiredSlots_p prodt \<le> maxCapacity s)
      \<longleftrightarrow> \<not> (\<exists>k::nat. st + int k * ?i < ?e
                   \<and> occupancyAt dateStr (st + int k * ?i) rs + requiredSlots_p prodt > maxCapacity s)"
  proof
    assume all: "\<forall>t \<in> set (coveredInstants st ?e ?i).
        occupancyAt dateStr t rs + requiredSlots_p prodt \<le> maxCapacity s"
    show "\<not> (\<exists>k::nat. st + int k * ?i < ?e
                   \<and> occupancyAt dateStr (st + int k * ?i) rs + requiredSlots_p prodt > maxCapacity s)"
    proof
      assume "\<exists>k::nat. st + int k * ?i < ?e
                   \<and> occupancyAt dateStr (st + int k * ?i) rs + requiredSlots_p prodt > maxCapacity s"
      then obtain k :: nat where k: "st + int k * ?i < ?e"
        and over: "occupancyAt dateStr (st + int k * ?i) rs + requiredSlots_p prodt > maxCapacity s"
        by blast
      from k have "st + int k * ?i \<in> set (coveredInstants st ?e ?i)"
        using set_coveredInstants [OF assms(3)] by blast
      with all over show False by fastforce
    qed
  next
    assume none: "\<not> (\<exists>k::nat. st + int k * ?i < ?e
                   \<and> occupancyAt dateStr (st + int k * ?i) rs + requiredSlots_p prodt > maxCapacity s)"
    show "\<forall>t \<in> set (coveredInstants st ?e ?i).
        occupancyAt dateStr t rs + requiredSlots_p prodt \<le> maxCapacity s"
    proof
      fix t assume "t \<in> set (coveredInstants st ?e ?i)"
      then obtain k :: nat where "t = st + int k * ?i" "t < ?e"
        using set_coveredInstants [OF assms(3)] by blast
      with none show "occupancyAt dateStr t rs + requiredSlots_p prodt \<le> maxCapacity s"
        by (meson not_less)
    qed
  qed
  with assms have main: "canBook dateStr startLabel prodt rs s =
           Some (\<not> (\<exists>k::nat. st + int k * ?i < ?e
                   \<and> occupancyAt dateStr (st + int k * ?i) rs + requiredSlots_p prodt > maxCapacity s))"
    by (simp add: canBook_closed)
  have "(let lastInstant = st + (durationMin_p prodt - 1) div ?i * ?i
               in lastInstant < ?e \<and> ?e \<le> lastInstant + ?i
                  \<and> (occupancyAt dateStr lastInstant rs + requiredSlots_p prodt > maxCapacity s
                       \<longrightarrow> canBook dateStr startLabel prodt rs s = Some False))"
    if d: "0 < durationMin_p prodt"
  proof -
    let ?q = "(durationMin_p prodt - 1) div ?i"
    from last_instant [OF assms(3) d]
    have q: "0 \<le> ?q" "?q * ?i < durationMin_p prodt" "durationMin_p prodt \<le> ?q * ?i + ?i"
      by simp_all
    have "canBook dateStr startLabel prodt rs s = Some False"
      if over: "occupancyAt dateStr (st + ?q * ?i) rs + requiredSlots_p prodt > maxCapacity s"
    proof -
      have "st + int (nat ?q) * ?i < ?e
          \<and> occupancyAt dateStr (st + int (nat ?q) * ?i) rs + requiredSlots_p prodt > maxCapacity s"
        using q over by simp
      then have "\<exists>k::nat. st + int k * ?i < ?e
          \<and> occupancyAt dateStr (st + int k * ?i) rs + requiredSlots_p prodt > maxCapacity s"
        by (rule exI)
      then show ?thesis unfolding main by simp
    qed
    with q show ?thesis by (simp add: Let_def)
  qed
  with main show ?thesis by blast
qed

text \<open>
  The specification's scenario: with the two sample bookings in place, a one-unit booking
  of 60 minutes at 11:00 is refused. And a 45-minute booking from 10:00 is refused because
  of its last, partial slot: at 10:00 there is room (3 of 6 units are taken), at 10:30
  there is none.
\<close>

theorem canBook_checks_every_covered_instant_witness:
  "canBook ''2026-01-05'' ''11:00'' (PRODUCTS ! 0) sampleReservations DEFAULT_SETTINGS
     = Some False
   \<and> occupancyAt ''2026-01-05'' 600 sampleReservations + 1 \<le> maxCapacity DEFAULT_SETTINGS
   \<and> occupancyAt ''2026-01-05'' 630 sampleReservations + 1 > maxCapacity DEFAULT_SETTINGS
   \<and> canBook ''2026-01-05'' ''10:00''
         \<lparr>id_p = ''short'', name_p = ''short'', requiredSlots_p = 1, durationMin_p = 45\<rparr>
         sampleReservations DEFAULT_SETTINGS
     = Some False"
proof -
  let ?short = "\<lparr>id_p = ''short'', name_p = ''short'', requiredSlots_p = 1, durationMin_p = 45\<rparr>"
  have i: "0 < slotIntervalMin DEFAULT_SETTINGS"
    by (simp add: DEFAULT_SETTINGS_def)
  have a1: "timeToMinutes ''11:00'' = Some 660"
    by code_simp
  have a2: "(0::int) \<le> 660"
    by simp
  have a3: "660 + durationMin_p (PRODUCTS ! 0)
      \<le> closeHour DEFAULT_SETTINGS * 60 + closeMin DEFAULT_SETTINGS"
    by (simp add: PRODUCTS_def DEFAULT_SETTINGS_def)
  have full: "occupancyAt ''2026-01-05'' 660 sampleReservations + requiredSlots_p (PRODUCTS ! 0)
      > maxCapacity DEFAULT_SETTINGS"
    by code_simp
  have "660 + int 0 * slotIntervalMin DEFAULT_SETTINGS < 660 + durationMin_p (PRODUCTS ! 0)
      \<and> occupancyAt ''2026-01-05'' (660 + int 0 * slotIntervalMin DEFAULT_SETTINGS) sampleReservations
          + requiredSlots_p (PRODUCTS ! 0) > maxCapacity DEFAULT_SETTINGS"
    using full by (simp add: PRODUCTS_def)
  then have ex: "\<exists>k::nat. 660 + int k * slotIntervalMin DEFAULT_SETTINGS < 660 + durationMin_p (PRODUCTS ! 0)
      \<and> occupancyAt ''2026-01-05'' (660 + int k * slotIntervalMin DEFAULT_SETTINGS) sampleReservations
          + requiredSlots_p (PRODUCTS ! 0) > maxCapacity DEFAULT_SETTINGS"
    by (rule exI)
  from canBook_checks_every_covered_instant
    [OF a1 a2 i a3, of "''2026-01-05''" sampleReservations] ex
  have g1: "canBook ''2026-01-05'' ''11:00'' (PRODUCTS ! 0) sampleReservations DEFAULT_SETTINGS
     = Some False"
    by simp
  have b1: "timeToMinutes ''10:00'' = Some 600"
    by code_simp
  have b2: "(0::int) \<le> 600"
    by simp
  have b3: "600 + durationMin_p ?short
      \<le> closeHour DEFAULT_SETTINGS * 60 + closeMin DEFAULT_SETTINGS"
    by (simp add: DEFAULT_SETTINGS_def)
  have room: "occupancyAt ''2026-01-05'' 600 sampleReservations + 1 \<le> maxCapacity DEFAULT_SETTINGS"
    by code_simp
  have none: "occupancyAt ''2026-01-05'' 630 sampleReservations + 1 > maxCapacity DEFAULT_SETTINGS"
    by code_simp
  have lastI: "600 + (durationMin_p ?short - 1) div slotIntervalMin DEFAULT_SETTINGS
      * slotIntervalMin DEFAULT_SETTINGS = 630"
    by (simp add: DEFAULT_SETTINGS_def)
  from canBook_checks_every_covered_instant
    [OF b1 b2 i b3, of "''2026-01-05''" sampleReservations]
  have "0 < durationMin_p ?short \<longrightarrow>
      (occupancyAt ''2026-01-05'' 630 sampleReservations + requiredSlots_p ?short
          > maxCapacity DEFAULT_SETTINGS
        \<longrightarrow> canBook ''2026-01-05'' ''10:00'' ?short sampleReservations DEFAULT_SETTINGS = Some False)"
    unfolding lastI Let_def by blast
  with none have g2: "canBook ''2026-01-05'' ''10:00'' ?short sampleReservations DEFAULT_SETTINGS
     = Some False"
    by simp
  from g1 room none g2 show ?thesis by (simp only: simp_thms)
qed

subsection \<open>The slot grid\<close>

text \<open>
  Claim C3. When the opening time is before the closing time and the interval is
  positive, \<^verbatim>\<open>generateTimeSlots\<close> returns a non-empty list of slots; every slot's offset
  is at least the opening time and less than the closing time; the offsets are the opening
  time plus 0, 1, 2, ... intervals, in this order, so they increase strictly; the list
  stops only when the next step would reach the closing time; and every slot's label
  reads back as its offset.
\<close>

theorem generateTimeSlots_within_hours:
  assumes "openHour s * 60 + openMin s < closeHour s * 60 + closeMin s"
    and "0 < slotIntervalMin s"
  shows "\<exists>slots. generateTimeSlots s = Some slots \<and> slots \<noteq> []
     \<and> (\<forall>sl \<in> set slots.
           openHour s * 60 + openMin s \<le> slotOffset sl
           \<and> slotOffset sl < closeHour s * 60 + closeMin s
           \<and> timeToMinutes (label sl) = Some (slotOffset sl))
     \<and> map slotOffset slots
         = map (\<lambda>k. openHour s * 60 + openMin s + int k * slotIntervalMin s) [0..<length slots]
     \<and> sorted_wrt (<) (map slotOffset slots)
     \<and> closeHour s * 60 + closeMin s
         \<le> openHour s * 60 + openMin s + int (length slots) * slotIntervalMin s"
proof -
  from generateTimeSlots_grid [OF assms(2)]
  obtain slots where r: "generateTimeSlots s = Some slots"
    and offs: "map slotOffset slots
         = map (\<lambda>k. openHour s * 60 + openMin s + int k * slotIntervalMin s) [0..<length slots]"
    and each: "\<forall>sl\<in>set slots. label sl = fmtTime (hour sl) (min_s sl)
           \<and> openHour s * 60 + openMin s \<le> slotOffset sl
           \<and> slotOffset sl < closeHour s * 60 + closeMin s"
    and upper: "closeHour s * 60 + closeMin s
         \<le> openHour s * 60 + openMin s + int (length slots) * slotIntervalMin s"
    and empty: "slots = [] \<longleftrightarrow> closeHour s * 60 + closeMin s \<le> openHour s * 60 + openMin s"
    by blast
  from empty assms(1) have ne: "slots \<noteq> []" by simp
  from each have each': "\<forall>sl \<in> set slots.
           openHour s * 60 + openMin s \<le> slotOffset sl
           \<and> slotOffset sl < closeHour s * 60 + closeMin s
           \<and> timeToMinutes (label sl) = Some (slotOffset sl)"
    using slot_label_offset by blast
  have "sorted_wrt (<) (map slotOffset slots)"
    unfolding offs by (rule sorted_steps [OF assms(2)])
  with r ne each' offs upper show ?thesis by blast
qed

text \<open>The default settings: twenty slots, from 09:00 to 18:30.\<close>

theorem generateTimeSlots_within_hours_witness:
  "openHour DEFAULT_SETTINGS * 60 + openMin DEFAULT_SETTINGS
     < closeHour DEFAULT_SETTINGS * 60 + closeMin DEFAULT_SETTINGS
   \<and> 0 < slotIntervalMin DEFAULT_SETTINGS
   \<and> (\<exists>slots. generateTimeSlots DEFAULT_SETTINGS = Some slots
        \<and> map slotOffset slots
           = [540, 570, 600, 630, 660, 690, 720, 750, 780, 810,
              840, 870, 900, 930, 960, 990, 1020, 1050, 1080, 1110]
        \<and> sorted_wrt (<) (map slotOffset slots)
        \<and> (\<forall>sl \<in> set slots. 540 \<le> slotOffset sl \<and> slotOffset sl < 1140))"
proof -
  have a: "openHour DEFAULT_SETTINGS * 60 + openMin DEFAULT_SETTINGS
     < closeHour DEFAULT_SETTINGS * 60 + closeMin DEFAULT_SETTINGS"
    by (simp add: DEFAULT_SETTINGS_def)
  have b: "0 < slotIntervalMin DEFAULT_SETTINGS"
    by (simp add: DEFAULT_SETTINGS_def)
  have v: "map slotOffset (the (generateTimeSlots DEFAULT_SETTINGS))
           = [540, 570, 600, 630, 660, 690, 720, 750, 780, 810,
              840, 870, 900, 930, 960, 990, 1020, 1050, 1080, 1110]"
    by code_simp
  have o: "openHour DEFAULT_SETTINGS * 60 + openMin DEFAULT_SETTINGS = 540"
    and c: "closeHour DEFAULT_SETTINGS * 60 + closeMin DEFAULT_SETTINGS = 1140"
    by (simp_all add: DEFAULT_SETTINGS_def)
  from generateTimeSlots_within_hours [OF a b]
  obtain slots where r: "generateTimeSlots DEFAULT_SETTINGS = Some slots"
    and each: "\<forall>sl \<in> set slots. 540 \<le> slotOffset sl \<and> slotOffset sl < 1140"
    and srt: "sorted_wrt (<) (map slotOffset slots)"
    unfolding o c by blast
  from r v have m: "map slotOffset slots
           = [540, 570, 600, 630, 660, 690, 720, 750, 780, 810,
              840, 870, 900, 930, 960, 990, 1020, 1050, 1080, 1110]"
    by simp
  from r m srt each
  have "\<exists>slots. generateTimeSlots DEFAULT_SETTINGS = Some slots
        \<and> map slotOffset slots
           = [540, 570, 600, 630, 660, 690, 720, 750, 780, 810,
              840, 870, 900, 930, 960, 990, 1020, 1050, 1080, 1110]
        \<and> sorted_wrt (<) (map slotOffset slots)
        \<and> (\<forall>sl \<in> set slots. 540 \<le> slotOffset sl \<and> slotOffset sl < 1140)"
    by (intro exI [of _ slots] conjI)
  with a b show ?thesis by (intro conjI)
qed

subsection \<open>Settings without a grid\<close>

text \<open>
  Claim C6, as stated, says that \<^verbatim>\<open>generateTimeSlots\<close> returns for every settings
  value. With the default hours and an interval of 0 the loop variable stays at 09:00 and
  the loop does not return.
\<close>

theorem generateTimeSlots_zero_interval_counterexample:
  "generateTimeSlots (DEFAULT_SETTINGS\<lparr>slotIntervalMin := 0\<rparr>) = None"
  unfolding generateTimeSlots_def
  by (rule gts_loop_diverges) (simp_all add: DEFAULT_SETTINGS_def)

text \<open>
  Claim C6, amended. \<^verbatim>\<open>generateTimeSlots\<close> returns whenever the interval is positive or
  the opening time is not before the closing time, and in the second case it returns the
  empty list, whatever the interval is. The only divisor in the function is the constant
  60. Nothing in the source rejects a settings value.
\<close>

theorem generateTimeSlots_terminates:
  "(0 < slotIntervalMin s \<or> closeHour s * 60 + closeMin s \<le> openHour s * 60 + openMin s
      \<longrightarrow> (\<exists>slots. generateTimeSlots s = Some slots))
   \<and> (closeHour s * 60 + closeMin s \<le> openHour s * 60 + openMin s
      \<longrightarrow> generateTimeSlots s = Some [])"
proof -
  have stop: "generateTimeSlots s = Some []"
    if "closeHour s * 60 + closeMin s \<le> openHour s * 60 + openMin s"
    unfolding generateTimeSlots_def using that by (intro gts_stop) simp
  have "\<exists>slots. generateTimeSlots s = Some slots" if "0 < slotIntervalMin s"
    using generateTimeSlots_grid [OF that] by blast
  with stop show ?thesis by blast
qed

text \<open>
  The default settings have a grid; settings that open at 20:00 and close at 19:00 have
  the empty one, also with an interval of 0.
\<close>

theorem generateTimeSlots_terminates_witness:
  "0 < slotIntervalMin DEFAULT_SETTINGS
   \<and> (\<exists>slots. generateTimeSlots DEFAULT_SETTINGS = Some slots)
   \<and> closeHour (DEFAULT_SETTINGS\<lparr>openHour := 20, slotIntervalMin := 0\<rparr>) * 60
       + closeMin (DEFAULT_SETTINGS\<lparr>openHour := 20, slotIntervalMin := 0\<rparr>)
     \<le> openHour (DEFAULT_SETTINGS\<lparr>openHour := 20, slotIntervalMin := 0\<rparr>) * 60
       + openMin (DEFAULT_SETTINGS\<lparr>openHour := 20, slotIntervalMin := 0\<rparr>)
   \<and> generateTimeSlots (DEFAULT_SETTINGS\<lparr>openHour := 20, slotIntervalMin := 0\<rparr>) = Some []"
proof -
  let ?closed = "DEFAULT_SETTINGS\<lparr>openHour := 20, slotIntervalMin := 0\<rparr>"
  have a: "0 < slotIntervalMin DEFAULT_SETTINGS"
    by (simp add: DEFAULT_SETTINGS_def)
  have b: "closeHour ?closed * 60 + closeMin ?closed \<le> openHour ?closed * 60 + openMin ?closed"
    by (simp add: DEFAULT_SETTINGS_def)
  from generateTimeSlots_terminates [of DEFAULT_SETTINGS] a
  have g1: "\<exists>slots. generateTimeSlots DEFAULT_SETTINGS = Some slots"
    by blast
  from generateTimeSlots_terminates [of ?closed] b
  have g2: "generateTimeSlots ?closed = Some []"
    by blast
  from a g1 b g2 show ?thesis by blast
qed

subsection \<open>The availability ratio of a day\<close>

text \<open>
  Claim C9. Take settings with the opening time before the closing time and a positive
  interval, and values as the program produces them: a capacity that is not 0 (the
  settings editor stores 1 in place of 0, the data model says positive) and required units
  that are not negative (the product table's are positive). Then \<^verbatim>\<open>getDateAvailability\<close>
  returns the quotient of the sum, over the slots of the grid, of the larger of 0 and
  capacity minus occupancy at the slot, by the number of slots times the capacity; and
  this quotient is between 0 and 1.
\<close>

theorem getDateAvailability_ratio:
  assumes "openHour s * 60 + openMin s < closeHour s * 60 + closeMin s"
    and "0 < slotIntervalMin s"
    and "maxCapacity s \<noteq> 0"
    and "\<forall>r \<in> set rs. 0 \<le> requiredSlots r"
  shows "\<exists>slots q. generateTimeSlots s = Some slots
     \<and> getDateAvailability dateStr rs s = Some (Quotient q)
     \<and> q = real_of_int
             (sum_list (map (\<lambda>sl. max 0 (maxCapacity s - occupancyAt dateStr (slotOffset sl) rs))
                slots))
           / real_of_int (int (length slots) * maxCapacity s)
     \<and> 0 \<le> q \<and> q \<le> 1"
proof -
  from generateTimeSlots_grid [OF assms(2)]
  obtain slots where r: "generateTimeSlots s = Some slots"
    and each: "\<forall>sl\<in>set slots. label sl = fmtTime (hour sl) (min_s sl)"
    and empty: "slots = [] \<longleftrightarrow> closeHour s * 60 + closeMin s \<le> openHour s * 60 + openMin s"
    by blast
  let ?f = "\<lambda>sl. max 0 (maxCapacity s - occupancyAt dateStr (slotOffset sl) rs)"
  let ?total = "sum_list (map ?f slots)" and ?maxPossible = "int (length slots) * maxCapacity s"
  from empty assms(1) have ne: "slots \<noteq> []" by simp
  with assms(3) have nz: "?maxPossible \<noteq> 0" by simp
  have res: "getDateAvailability dateStr rs s
      = Some (Quotient (real_of_int ?total / real_of_int ?maxPossible))"
    unfolding getDateAvailability_sum [OF r each] jsDivide_def using nz by (simp only: if_False)
  define T where "T = ?total"
  define M where "M = ?maxPossible"
  have "0 \<le> real_of_int T / real_of_int M \<and> real_of_int T / real_of_int M \<le> 1"
  proof (cases "0 < maxCapacity s")
    case True
    have "\<forall>sl\<in>set slots. 0 \<le> ?f sl \<and> ?f sl \<le> maxCapacity s"
      using occupancyAt_nonneg [OF assms(4)] True by (simp add: max_def)
    then have "0 \<le> ?total \<and> ?total \<le> ?maxPossible"
      by (rule sum_list_bounds)
    moreover from ne True have "0 < ?maxPossible" by simp
    ultimately have "0 \<le> T" "T \<le> M" "0 < M"
      unfolding T_def M_def by simp_all
    then show ?thesis by simp
  next
    case False
    with assms(3) have neg: "maxCapacity s < 0" by simp
    have "0 \<le> ?f sl \<and> ?f sl \<le> 0" for sl
      using occupancyAt_nonneg [OF assms(4), of dateStr "slotOffset sl"] neg by simp
    then have "\<forall>sl\<in>set slots. 0 \<le> ?f sl \<and> ?f sl \<le> 0"
      by blast
    then have "0 \<le> ?total \<and> ?total \<le> int (length slots) * 0"
      by (rule sum_list_bounds)
    then have "T = 0" unfolding T_def by simp
    then show ?thesis by simp
  qed
  then show ?thesis using r res unfolding T_def M_def by blast
qed

text \<open>
  The sample day with the default settings: of the 120 units of the day's twenty slots,
  24 are taken, and the ratio is 4/5.
\<close>

theorem getDateAvailability_ratio_witness:
  "openHour DEFAULT_SETTINGS * 60 + openMin DEFAULT_SETTINGS
     < closeHour DEFAULT_SETTINGS * 60 + closeMin DEFAULT_SETTINGS
   \<and> 0 < slotIntervalMin DEFAULT_SETTINGS
   \<and> maxCapacity DEFAULT_SETTINGS \<noteq> 0
   \<and> list_all (\<lambda>r. 0 \<le> requiredSlots r) sampleReservations
   \<and> (\<exists>q. getDateAvailability ''2026-01-05'' sampleReservations DEFAULT_SETTINGS
            = Some (Quotient q) \<and> 0 \<le> q \<and> q \<le> 1)
   \<and> getDateAvailability ''2026-01-05'' sampleReservations DEFAULT_SETTINGS
       = Some (Quotient (4 / 5))"
proof -
  have a: "openHour DEFAULT_SETTINGS * 60 + openMin DEFAULT_SETTINGS
     < closeHour DEFAULT_SETTINGS * 60 + closeMin DEFAULT_SETTINGS"
    by (simp add: DEFAULT_SETTINGS_def)
  have b: "0 < slotIntervalMin DEFAULT_SETTINGS"
    by (simp add: DEFAULT_SETTINGS_def)
  have c: "maxCapacity DEFAULT_SETTINGS \<noteq> 0"
    by (simp add: DEFAULT_SETTINGS_def)
  have d: "\<forall>r \<in> set sampleReservations. 0 \<le> requiredSlots r"
    by (simp add: sampleReservations_eq)
  from getDateAvailability_ratio [OF a b c d, of "''2026-01-05''"]
  have e: "\<exists>q. getDateAvailability ''2026-01-05'' sampleReservations DEFAULT_SETTINGS
            = Some (Quotient q) \<and> 0 \<le> q \<and> q \<le> 1"
    by blast
  have v: "getDateAvailability ''2026-01-05'' sampleReservations DEFAULT_SETTINGS
       = Some (Quotient (4 / 5))"
    by code_simp
  from d have d': "list_all (\<lambda>r. 0 \<le> requiredSlots r) sampleReservations"
    by (simp only: list_all_iff)
  from a b c d' e v show ?thesis by (intro conjI)
qed

end
